theory Spec2Isabelle
  imports Main "HOL-Library.FSet" "HOL-Library.Finite_Map" "HOL-Library.Char_ord"
    "HOL-Library.List_Lexorder"
begin

section \<open>Structural type model\<close>

text \<open>
  The programs of this repository are TypeScript type aliases (\<^verbatim>\<open>MyPick\<close>, \<^verbatim>\<open>MyOmit\<close>,
  \<^verbatim>\<open>MyExclude\<close>, \<^verbatim>\<open>MyReadonly\<close>, \<^verbatim>\<open>MyMutable\<close>, \<^verbatim>\<open>SomeReadonly\<close>, \<^verbatim>\<open>DeepReadonly\<close>,
  \<^verbatim>\<open>TupleToObject\<close>) and the documented test utilities \<^verbatim>\<open>Equal\<close>, \<^verbatim>\<open>IsAny\<close>, \<^verbatim>\<open>NotAny\<close>,
  \<^verbatim>\<open>Expect\<close>. They are evaluated by the host type checker; each alias becomes a HOL
  function on a reified type, and the host rules the aliases rely on (assignability,
  union normalisation, conditional, indexed-access and mapped types) are written out as
  functions below. The host is taken with \<^verbatim>\<open>strictNullChecks\<close> on and
  \<^verbatim>\<open>exactOptionalPropertyTypes\<close> off.

  A type is the finite set of its sum-type members: the empty set is \<^verbatim>\<open>never\<close>, a
  one-element set is that member, \<^verbatim>\<open>boolean\<close> is \<^verbatim>\<open>true | false\<close>. A record type is a
  finite map from attribute names to attributes, so neither the order of the members of a
  sum nor the order of the attributes of a record is represented. An attribute carries
  its two modifiers and its value type; the value type of an optional attribute is stored
  without the \<^verbatim>\<open>undefined\<close> that reading the attribute adds.

  A record type is given by its attributes alone, so a sum lists each record type once.
  The host keeps two record types that were written separately apart as members of one
  sum, even when they have the same attributes: for it \<^verbatim>\<open>{ a: 1 } | { a: 1 }\<close> is a sum of
  two members, which \<^verbatim>\<open>Equal\<close> tells from \<^verbatim>\<open>{ a: 1 }\<close>. Such a sum has no counterpart
  here.

  Numeric literal types are the integers whose property name is their plain decimal
  numeral. Records that have an index signature next to attributes, methods, tuples as
  value types, symbols, \<^verbatim>\<open>null\<close>, \<^verbatim>\<open>void\<close> and type variables are outside this
  fragment.
\<close>

datatype lit = LStr string | LNum int | LBool bool

datatype 'a attr = Attr (readonly: bool) (optional: bool) (valueType: 'a)

datatype mty =
    MAny | MUnknown | MString | MNumber | MUndefined | MObject
  | MLit lit
  | MRec "(string, mty fset attr) fmap"
  | MArray bool "mty fset"
  | MDict bool "mty fset"
  | MFun "mty fset list" "mty fset"
  | MInter "mty fset"

type_synonym ty = "mty fset"
type_synonym rec = "(string, ty attr) fmap"

abbreviation TNever :: ty where "TNever \<equiv> {||}"
abbreviation TAny :: ty where "TAny \<equiv> {|MAny|}"
abbreviation TUnknown :: ty where "TUnknown \<equiv> {|MUnknown|}"
abbreviation TString :: ty where "TString \<equiv> {|MString|}"
abbreviation TNumber :: ty where "TNumber \<equiv> {|MNumber|}"
abbreviation TUndefined :: ty where "TUndefined \<equiv> {|MUndefined|}"
abbreviation TObject :: ty where "TObject \<equiv> {|MObject|}"
abbreviation TStr :: "string \<Rightarrow> ty" where "TStr x \<equiv> {|MLit (LStr x)|}"
abbreviation TNum :: "int \<Rightarrow> ty" where "TNum n \<equiv> {|MLit (LNum n)|}"
abbreviation TTrue :: ty where "TTrue \<equiv> {|MLit (LBool True)|}"
abbreviation TFalse :: ty where "TFalse \<equiv> {|MLit (LBool False)|}"
abbreviation TBoolean :: ty where "TBoolean \<equiv> {|MLit (LBool True), MLit (LBool False)|}"
abbreviation TRec :: "rec \<Rightarrow> ty" where "TRec m \<equiv> {|MRec m|}"

text \<open>
  \<open>MArray ro e\<close> is \<^verbatim>\<open>e[]\<close>, or \<^verbatim>\<open>readonly e[]\<close> when \<open>ro\<close> holds; \<open>MDict ro v\<close> is
  the record type with a string index signature and no attribute, \<^verbatim>\<open>{ [x: string]: v }\<close>,
  or \<^verbatim>\<open>{ readonly [x: string]: v }\<close> when \<open>ro\<close> holds; \<open>MFun ps r\<close> is the function type
  with parameter types \<open>ps\<close> and result \<open>r\<close>; \<open>MObject\<close> is the \<^verbatim>\<open>object\<close> keyword;
  \<open>MInter ms\<close> is an intersection the host keeps unreduced.
\<close>

section \<open>Host rules\<close>

subsection \<open>Assignability\<close>

text \<open>
  \<^verbatim>\<open>S extends T\<close> in a conditional type or a type-parameter constraint asks whether
  \<open>S\<close> is assignable to \<open>T\<close>. The rule for a target that is \<^verbatim>\<open>any\<close>, \<^verbatim>\<open>unknown\<close>,
  \<^verbatim>\<open>never\<close>, a primitive, a literal, \<^verbatim>\<open>object\<close>, or a sum or intersection of these is
  written out. How the host compares a source with a record, array or function target
  (width and depth of records, index signatures, variance of functions, the members the standard library
  gives to primitives, discriminated sums) is not part of the repository: it is the
  parameter \<open>s\<close>, of type \<open>structural\<close>, and every result below holds for every \<open>s\<close>.
\<close>

type_synonym structural = "mty \<Rightarrow> ty \<Rightarrow> bool"

fun is_structural :: "mty \<Rightarrow> bool" where
  "is_structural (MRec _) = True"
| "is_structural (MArray _ _) = True"
| "is_structural (MDict _ _) = True"
| "is_structural (MFun _ _) = True"
| "is_structural _ = False"

fun is_str_lit :: "mty \<Rightarrow> bool" where
  "is_str_lit (MLit (LStr _)) = True"
| "is_str_lit _ = False"

fun is_num_lit :: "mty \<Rightarrow> bool" where
  "is_num_lit (MLit (LNum _)) = True"
| "is_num_lit _ = False"

fun is_inter :: "mty \<Rightarrow> bool" where
  "is_inter (MInter _) = True"
| "is_inter _ = False"

text \<open>
  One member against one member. The equations are tried in order: a top target
  accepts everything; \<^verbatim>\<open>any\<close> as a source is accepted by every member; \<^verbatim>\<open>unknown\<close>
  only by a top target; an intersection target needs every constituent; an intersection
  source needs one constituent (or the host's structural comparison).
\<close>

function (sequential) m_assignable :: "structural \<Rightarrow> mty \<Rightarrow> mty \<Rightarrow> bool" where
  "m_assignable s a MAny = True"
| "m_assignable s a MUnknown = True"
| "m_assignable s MAny b = True"
| "m_assignable s MUnknown b = False"
| "m_assignable s a (MInter ts) = (\<forall>t |\<in>| ts. m_assignable s a t)"
| "m_assignable s (MInter ms) b =
     ((\<exists>m |\<in>| ms. m_assignable s m b) \<or> (is_structural b \<and> s (MInter ms) {|b|}))"
| "m_assignable s a (MLit l) = (a = MLit l)"
| "m_assignable s a MString = (a = MString \<or> is_str_lit a)"
| "m_assignable s a MNumber = (a = MNumber \<or> is_num_lit a)"
| "m_assignable s a MUndefined = (a = MUndefined)"
| "m_assignable s a MObject = (a = MObject \<or> is_structural a)"
| "m_assignable s a b = (a = b \<or> s a {|b|})"
  by pat_completeness auto
termination
proof -
  have mem: "size x < Suc (\<Sum>y\<in>fset S. Suc (size y))" if "x |\<in>| S" for x :: mty and S
  proof -
    from that have "Suc (size x) \<le> (\<Sum>y\<in>fset S. Suc (size y))"
      by (intro member_le_sum) auto
    then show ?thesis by simp
  qed
  show ?thesis
    by (relation "measure (\<lambda>(s, a, b). size a + size b)") (auto dest: mem)
qed

text \<open>
  The host that relates no source to a structural target. It makes the examples below
  closed terms, and it serves where no target is structural.
\<close>

definition plain_host :: structural where
  "plain_host a T = False"

definition has_structural :: "ty \<Rightarrow> bool" where
  "has_structural T = (\<exists>b |\<in>| T. is_structural b)"

text \<open>
  A sum source is assignable when each of its members is; a member is assignable to a
  sum target when it is assignable to one member of the target. \<^verbatim>\<open>never\<close> (no member)
  is assignable to everything, and nothing but \<^verbatim>\<open>never\<close> is assignable to \<^verbatim>\<open>never\<close>.
\<close>

definition assignable :: "structural \<Rightarrow> ty \<Rightarrow> ty \<Rightarrow> bool" where
  "assignable s S T =
     (\<forall>a |\<in>| S. (\<exists>b |\<in>| T. m_assignable s a b) \<or> (has_structural T \<and> s a T))"

subsection \<open>Sum normalisation\<close>

text \<open>
  The host keeps a sum in normal form: \<^verbatim>\<open>any\<close> absorbs every other member, then
  \<^verbatim>\<open>unknown\<close> does, and a string or numeric literal disappears next to its primitive.
\<close>

fun subsumed :: "ty \<Rightarrow> mty \<Rightarrow> bool" where
  "subsumed S (MLit (LStr x)) = (MString |\<in>| S)"
| "subsumed S (MLit (LNum n)) = (MNumber |\<in>| S)"
| "subsumed S m = False"

definition union_norm :: "ty \<Rightarrow> ty" where
  "union_norm S =
     (if MAny |\<in>| S then TAny
      else if MUnknown |\<in>| S then TUnknown
      else ffilter (\<lambda>m. \<not> subsumed S m) S)"

definition canonical :: "ty \<Rightarrow> bool" where
  "canonical S = (union_norm S = S)"

subsection \<open>Conditional types\<close>

text \<open>
  \<open>Cond1 s C U A B\<close> is \<^verbatim>\<open>C extends U ? A : B\<close> for a check type that is not a naked type
  parameter. When the check type is \<^verbatim>\<open>any\<close> and \<open>U\<close> is not a top type the host returns
  the sum of both branches. \<open>CondDist\<close> is the distributive form, for a naked type
  parameter \<open>T\<close>: the conditional is evaluated for each member of \<open>T\<close> and the results are
  joined, so \<^verbatim>\<open>never\<close> gives \<^verbatim>\<open>never\<close>.
\<close>

definition is_top :: "ty \<Rightarrow> bool" where
  "is_top T = (MAny |\<in>| T \<or> MUnknown |\<in>| T)"

definition Cond1 :: "structural \<Rightarrow> ty \<Rightarrow> ty \<Rightarrow> ty \<Rightarrow> ty \<Rightarrow> ty" where
  "Cond1 s C U A B =
     (if C = TAny \<and> \<not> is_top U then union_norm (A |\<union>| B)
      else if assignable s C U then A else B)"

definition CondDist :: "structural \<Rightarrow> ty \<Rightarrow> ty \<Rightarrow> (ty \<Rightarrow> ty) \<Rightarrow> (ty \<Rightarrow> ty) \<Rightarrow> ty" where
  "CondDist s T U A B =
     union_norm (ffUnion ((\<lambda>m. Cond1 s {|m|} U (A {|m|}) (B {|m|})) |`| T))"

subsection \<open>Keys, indexed access and mapped types\<close>

text \<open>
  A member of a key type names an attribute when it is a string literal, or a numeric
  literal (the name is its decimal numeral). A boolean literal names no attribute, nor
  does \<^verbatim>\<open>undefined\<close>, \<^verbatim>\<open>object\<close> or a record, array or function type: a mapped type
  passes over such a member. From the members \<^verbatim>\<open>string\<close>, \<^verbatim>\<open>number\<close> and \<^verbatim>\<open>any\<close> of a
  key type the host makes index signatures next to the attributes, which is outside this
  fragment; no key type below has one.
\<close>

definition digit_char :: "nat \<Rightarrow> char" where
  "digit_char d = ''0123456789'' ! d"

function show_nat :: "nat \<Rightarrow> string" where
  "show_nat n =
     (if n < 10 then [digit_char n] else show_nat (n div 10) @ [digit_char (n mod 10)])"
  by pat_completeness auto
termination
  by (relation "measure (\<lambda>n. n)") auto

declare show_nat.simps [simp del]

definition show_int :: "int \<Rightarrow> string" where
  "show_int i = (if i < 0 then CHR ''-'' # show_nat (nat (- i)) else show_nat (nat i))"

fun prop_name :: "mty \<Rightarrow> string option" where
  "prop_name (MLit (LStr x)) = Some x"
| "prop_name (MLit (LNum n)) = Some (show_int n)"
| "prop_name m = None"

definition key_names :: "ty \<Rightarrow> string fset" where
  "key_names K = ffUnion ((\<lambda>k. case prop_name k of None \<Rightarrow> {||} | Some n \<Rightarrow> {|n|}) |`| K)"

definition keys_named :: "ty \<Rightarrow> string \<Rightarrow> ty" where
  "keys_named K n = ffilter (\<lambda>k. prop_name k = Some n) K"

text \<open>
  The sum of the string-literal types of a set of names, and \<^verbatim>\<open>keyof T\<close> for a record
  \<open>T\<close> with string-named attributes.
\<close>

definition key_union :: "string fset \<Rightarrow> ty" where
  "key_union N = (\<lambda>k. MLit (LStr k)) |`| N"

definition Keyof :: "rec \<Rightarrow> ty" where
  "Keyof T = key_union (fmdom T)"

definition add_undefined :: "ty \<Rightarrow> ty" where
  "add_undefined V = union_norm (finsert MUndefined V)"

definition strip_undefined :: "ty \<Rightarrow> ty" where
  "strip_undefined V = ffilter (\<lambda>m. m \<noteq> MUndefined) V"

text \<open>The type read from an attribute: an optional attribute reads as its value type or \<^verbatim>\<open>undefined\<close>.\<close>

definition read_attr :: "ty attr \<Rightarrow> ty" where
  "read_attr a = (if optional a then add_undefined (valueType a) else valueType a)"

text \<open>
  \<^verbatim>\<open>T[P]\<close> for a record \<open>T\<close> and a key type \<open>P\<close>: the sum of what each key reads. The
  aliases index \<open>T\<close> with keys of \<open>T\<close> only; a key that names no attribute of \<open>T\<close>
  adds nothing.
\<close>

definition Index :: "rec \<Rightarrow> ty \<Rightarrow> ty" where
  "Index T P =
     union_norm (ffUnion ((\<lambda>p. case prop_name p of None \<Rightarrow> TNever
        | Some n \<Rightarrow> (case fmlookup T n of None \<Rightarrow> TNever | Some a \<Rightarrow> read_attr a)) |`| P))"

text \<open>
  A mapped type \<^verbatim>\<open>{ [P in K]: X }\<close>, with an optional \<^verbatim>\<open>readonly\<close>, \<^verbatim>\<open>-readonly\<close>, \<^verbatim>\<open>?\<close> or
  \<^verbatim>\<open>-?\<close> in front of its parts. The host copies the modifiers of a source record only
  when the mapped type is homomorphic, which it reads off the way the key clause is
  written: \<^verbatim>\<open>[P in keyof T]\<close> (\<open>InKeyof T\<close>), or \<^verbatim>\<open>[P in K]\<close> for a type parameter
  declared \<^verbatim>\<open>K extends keyof T\<close> (\<open>InParam T K\<close>); the source record is \<open>T\<close>. For a key
  clause over any other type (\<open>InType K\<close>), a conditional type such as
  \<^verbatim>\<open>MyExclude<keyof T, K>\<close> or an indexed access such as \<^verbatim>\<open>T[number]\<close> included, there is
  no source record: every attribute starts non-readonly and required. The template
  \<open>tmpl\<close> receives the key type of the attribute being built.
\<close>

datatype modifier = Keep | Add | Remove

fun toggle :: "modifier \<Rightarrow> bool \<Rightarrow> bool" where
  "toggle Add b = True"
| "toggle Remove b = False"
| "toggle Keep b = b"

definition fm_tabulate :: "string fset \<Rightarrow> (string \<Rightarrow> 'b) \<Rightarrow> (string, 'b) fmap" where
  "fm_tabulate S f = fmap_of_list (map (\<lambda>k. (k, f k)) (sorted_list_of_fset S))"

definition mapped_attr ::
  "rec option \<Rightarrow> modifier \<Rightarrow> modifier \<Rightarrow> ty \<Rightarrow> (ty \<Rightarrow> ty) \<Rightarrow> string \<Rightarrow> ty attr" where
  "mapped_attr src ro opt K tmpl n =
     (let mp = (case src of None \<Rightarrow> None | Some T \<Rightarrow> fmlookup T n);
          src_ro = (case mp of None \<Rightarrow> False | Some a \<Rightarrow> readonly a);
          src_opt = (case mp of None \<Rightarrow> False | Some a \<Rightarrow> optional a);
          is_opt = toggle opt src_opt;
          raw = tmpl (keys_named K n)
      in Attr (toggle ro src_ro) is_opt (if is_opt \<or> src_opt then strip_undefined raw else raw))"

datatype key_clause = InKeyof rec | InParam rec ty | InType ty

fun modifiers_source :: "key_clause \<Rightarrow> rec option" where
  "modifiers_source (InKeyof T) = Some T"
| "modifiers_source (InParam T K) = Some T"
| "modifiers_source (InType K) = None"

fun key_type :: "key_clause \<Rightarrow> ty" where
  "key_type (InKeyof T) = Keyof T"
| "key_type (InParam T K) = K"
| "key_type (InType K) = K"

definition Mapped :: "modifier \<Rightarrow> modifier \<Rightarrow> key_clause \<Rightarrow> (ty \<Rightarrow> ty) \<Rightarrow> rec" where
  "Mapped ro opt c tmpl =
     fm_tabulate (key_names (key_type c))
       (mapped_attr (modifiers_source c) ro opt (key_type c) tmpl)"

subsection \<open>Intersections\<close>

text \<open>
  \<^verbatim>\<open>A & B\<close>: \<^verbatim>\<open>never\<close> wins, then \<^verbatim>\<open>any\<close>; otherwise the intersection distributes over
  the members of both sides. Two members that are equal, or of which one is \<^verbatim>\<open>unknown\<close>
  or a literal of the other, reduce to one; primitives and literals that exclude each
  other, and \<^verbatim>\<open>undefined\<close> or \<^verbatim>\<open>object\<close> against them, reduce to \<^verbatim>\<open>never\<close>; the rest is
  kept as an intersection, an operand that is an intersection being flattened into it.
\<close>

fun members_of :: "mty \<Rightarrow> ty" where
  "members_of (MInter ms) = ms"
| "members_of m = {|m|}"

fun is_primitive :: "mty \<Rightarrow> bool" where
  "is_primitive MString = True"
| "is_primitive MNumber = True"
| "is_primitive (MLit l) = True"
| "is_primitive m = False"

fun refines :: "mty \<Rightarrow> mty \<Rightarrow> bool" where
  "refines (MLit (LStr x)) MString = True"
| "refines (MLit (LNum n)) MNumber = True"
| "refines a b = False"

definition disjoint :: "mty \<Rightarrow> mty \<Rightarrow> bool" where
  "disjoint a b =
     (a = MUndefined \<or> b = MUndefined
      \<or> (is_primitive a \<and> is_primitive b)
      \<or> (a = MObject \<and> is_primitive b) \<or> (is_primitive a \<and> b = MObject))"

definition meet :: "mty \<Rightarrow> mty \<Rightarrow> ty" where
  "meet a b =
     (if a = b then {|a|}
      else if a = MUnknown then {|b|}
      else if b = MUnknown then {|a|}
      else if refines a b then {|a|}
      else if refines b a then {|b|}
      else if disjoint a b then TNever
      else {|MInter (members_of a |\<union>| members_of b)|})"

definition intersect :: "ty \<Rightarrow> ty \<Rightarrow> ty" where
  "intersect A B =
     (if A = TNever \<or> B = TNever then TNever
      else if MAny |\<in>| A \<or> MAny |\<in>| B then TAny
      else union_norm (ffUnion ((\<lambda>a. ffUnion ((\<lambda>b. meet a b) |`| B)) |`| A)))"

text \<open>
  The attributes of an intersection, which a mapped type over the intersection ranges
  over: the names are those of the record constituents; an attribute is readonly when
  each constituent that has the name declares it readonly, and optional when each
  declares it optional. Its value type is that of the constituent that has the name.
  When several constituents have it the host intersects their value types; \<open>inter_attr\<close>
  is exact when they agree on the value type, and joins the value types otherwise.
  Function and \<^verbatim>\<open>object\<close> constituents have no attribute; the attributes the standard
  library gives to array and primitive constituents are not represented.
\<close>

definition inter_names :: "ty \<Rightarrow> string fset" where
  "inter_names ms = ffUnion ((\<lambda>m. case m of MRec r \<Rightarrow> fmdom r | _ \<Rightarrow> {||}) |`| ms)"

definition owners :: "ty \<Rightarrow> string \<Rightarrow> ty attr fset" where
  "owners ms k =
     ffUnion ((\<lambda>m. case m of
         MRec r \<Rightarrow> (case fmlookup r k of None \<Rightarrow> {||} | Some a \<Rightarrow> {|a|})
       | _ \<Rightarrow> {||}) |`| ms)"

definition inter_attr :: "ty \<Rightarrow> string \<Rightarrow> ty attr" where
  "inter_attr ms k =
     Attr (\<forall>a |\<in>| owners ms k. readonly a) (\<forall>a |\<in>| owners ms k. optional a)
          (union_norm (ffUnion (valueType |`| owners ms k)))"

section \<open>The type aliases of the repository\<close>

text \<open>
  A type argument that violates the constraint of its parameter (\<^verbatim>\<open>K extends keyof T\<close>,
  \<^verbatim>\<open>T extends true\<close>) is rejected statically; the alias then returns \<open>Inl\<close> of the error.
\<close>

datatype error = ConstraintViolation

text \<open>\<^verbatim>\<open>type MyExclude<T, U> = T extends U ? never : T\<close> (3-Omit.ts).\<close>

definition MyExclude :: "structural \<Rightarrow> ty \<Rightarrow> ty \<Rightarrow> ty" where
  "MyExclude s T U = CondDist s T U (\<lambda>T. TNever) (\<lambda>T. T)"

text \<open>
  The built-in \<^verbatim>\<open>Exclude\<close>, used by \<^verbatim>\<open>SomeReadonly\<close>; 3-Omit.ts quotes its definition,
  \<^verbatim>\<open>type Exclude<T, U> = T extends U ? never : T\<close>.
\<close>

definition Exclude :: "structural \<Rightarrow> ty \<Rightarrow> ty \<Rightarrow> ty" where
  "Exclude s T U = CondDist s T U (\<lambda>T. TNever) (\<lambda>T. T)"

text \<open>\<^verbatim>\<open>type MyPick<T, K extends keyof T> = { [P in K]: T[P] }\<close> (unnamed/part_000).\<close>

definition MyPick :: "structural \<Rightarrow> rec \<Rightarrow> ty \<Rightarrow> error + rec" where
  "MyPick s T K =
     (if assignable s K (Keyof T) then Inr (Mapped Keep Keep (InParam T K) (\<lambda>P. Index T P))
      else Inl ConstraintViolation)"

text \<open>
  \<^verbatim>\<open>type MyOmit<T, K extends keyof T> = { [P in MyExclude<keyof T, K>]: T[P] }\<close>
  (3-Omit.ts). The key clause is over a conditional type.
\<close>

definition MyOmit :: "structural \<Rightarrow> rec \<Rightarrow> ty \<Rightarrow> error + rec" where
  "MyOmit s T K =
     (if assignable s K (Keyof T)
      then Inr (Mapped Keep Keep (InType (MyExclude s (Keyof T) K)) (\<lambda>P. Index T P))
      else Inl ConstraintViolation)"

text \<open>\<^verbatim>\<open>type MyReadonly<T> = { readonly [K in keyof T]: T[K] }\<close> (4-Readonly.ts).\<close>

definition MyReadonly :: "rec \<Rightarrow> rec" where
  "MyReadonly T = Mapped Add Keep (InKeyof T) (\<lambda>K. Index T K)"

text \<open>\<^verbatim>\<open>type MyMutable<T> = { -readonly [K in keyof T]: T[K] }\<close> (4-Readonly.ts).\<close>

definition MyMutable :: "rec \<Rightarrow> rec" where
  "MyMutable T = Mapped Remove Keep (InKeyof T) (\<lambda>K. Index T K)"

text \<open>
  \<^verbatim>\<open>type SomeReadonly<T, K extends keyof T> =
    { readonly [P in K]: T[P] } & { [P in Exclude<keyof T, K>]: T[P] }\<close> (4-Readonly.ts).
  The key clause of the first operand is over the type parameter \<open>K\<close>, that of the
  second over a conditional type.
\<close>

definition SomeReadonly :: "structural \<Rightarrow> rec \<Rightarrow> ty \<Rightarrow> error + ty" where
  "SomeReadonly s T K =
     (if assignable s K (Keyof T)
      then Inr (intersect (TRec (Mapped Add Keep (InParam T K) (\<lambda>P. Index T P)))
                          (TRec (Mapped Keep Keep (InType (Exclude s (Keyof T) K)) (\<lambda>P. Index T P))))
      else Inl ConstraintViolation)"

text \<open>
  \<^verbatim>\<open>type DeepReadonly<T> = { readonly [P in keyof T]:
       T[P] extends object ? DeepReadonly<T[P]> : T[P] }\<close> (4-Readonly.ts).
  The key clause is \<^verbatim>\<open>[P in keyof T]\<close>, and the host instantiates such a mapped type
  member by member of \<open>T\<close>. On a record it maps the attributes: the template is
  evaluated on what the attribute reads, and \<^verbatim>\<open>undefined\<close> is taken out of the result
  again for an optional attribute. On an array it maps the element type and applies the
  \<^verbatim>\<open>readonly\<close> modifier to the array; on a record with an index signature it maps the
  value type of the signature. A function type has no attribute and \<^verbatim>\<open>keyof unknown\<close> is
  \<^verbatim>\<open>never\<close>, so for both the result is the empty record. For \<^verbatim>\<open>any\<close> the host builds
  a string index signature; its value type is the template at \<^verbatim>\<open>any\<close>, a conditional
  type with check type \<^verbatim>\<open>any\<close>, which is the sum of both branches and so \<^verbatim>\<open>any\<close>. On
  an intersection it maps the attributes of the intersection into one record. A
  primitive, a literal and \<^verbatim>\<open>object\<close> are returned as they are.

  On a well-formed record the first equation is the mapped type of the source, with
  \<^verbatim>\<open>DeepReadonly\<close> in its template: lemma \<open>DeepReadonly_as_mapped_type\<close> below.
\<close>

function (sequential) deep_member :: "structural \<Rightarrow> mty \<Rightarrow> mty" where
  "deep_member s (MRec m) =
     MRec (fmmap (\<lambda>a. Attr True (optional a)
        (let r = Cond1 s (read_attr a) TObject (deep_member s |`| read_attr a) (read_attr a)
         in if optional a then strip_undefined r else r)) m)"
| "deep_member s (MArray ro e) = MArray True (Cond1 s e TObject (deep_member s |`| e) e)"
| "deep_member s (MDict ro v) = MDict True (Cond1 s v TObject (deep_member s |`| v) v)"
| "deep_member s (MFun ps r) = MRec fmempty"
| "deep_member s MUnknown = MRec fmempty"
| "deep_member s MAny = MDict True TAny"
| "deep_member s (MInter ms) =
     MRec (fm_tabulate (inter_names ms) (\<lambda>k. Attr True (optional (inter_attr ms k))
        (let a = inter_attr ms k;
             r = Cond1 s (read_attr a) TObject (deep_member s |`| read_attr a) (read_attr a)
         in if optional a then strip_undefined r else r)))"
| "deep_member s MString = MString"
| "deep_member s MNumber = MNumber"
| "deep_member s MUndefined = MUndefined"
| "deep_member s MObject = MObject"
| "deep_member s (MLit l) = MLit l"
  by pat_completeness auto
termination
proof -
  have mem: "size x < Suc (\<Sum>y\<in>fset S. Suc (size y))" if "x |\<in>| S" for x :: mty and S
  proof -
    from that have "Suc (size x) \<le> (\<Sum>y\<in>fset S. Suc (size y))"
      by (intro member_le_sum) auto
    then show ?thesis by simp
  qed
  have val: "size x < Suc (\<Sum>p\<in>fset (fset_of_fmap m).
      Suc (case p of (k, b) \<Rightarrow> size_attr (\<lambda>v. \<Sum>y\<in>fset v. Suc (size y)) b))"
    if a: "fmlookup m k = Some a" and x: "x = MUndefined \<or> x |\<in>| valueType a"
    for x :: mty and a m k
  proof -
    from a have inm: "(k, a) \<in> fset (fset_of_fmap m)" by simp
    from x have "size x < Suc (size_attr (\<lambda>v. \<Sum>y\<in>fset v. Suc (size y)) a)"
      by (cases a) (auto dest: mem)
    also have "\<dots> = (case (k, a) of (k, b) \<Rightarrow> Suc (size_attr (\<lambda>v. \<Sum>y\<in>fset v. Suc (size y)) b))"
      by simp
    also have "\<dots> \<le> (\<Sum>p\<in>fset (fset_of_fmap m).
        (case p of (k, b) \<Rightarrow> Suc (size_attr (\<lambda>v. \<Sum>y\<in>fset v. Suc (size y)) b)))"
      using inm by (rule member_le_sum) auto
    finally show ?thesis by (simp add: case_prod_beta)
  qed
  have attr: "size x < size (MRec m)" if a: "a \<in> fmran' m" and x: "x |\<in>| read_attr a"
    for x :: mty and a m
  proof -
    from a obtain k where look: "fmlookup m k = Some a" by (auto elim: fmran'E)
    have "x = MUndefined \<or> x |\<in>| valueType a"
      using x by (auto simp: read_attr_def add_undefined_def union_norm_def split: if_splits)
    with look show ?thesis by (simp add: val)
  qed
  have inter: "size x < size (MInter ms)" if x: "x |\<in>| read_attr (inter_attr ms k)"
    for x :: mty and ms k
  proof -
    have "x = MUndefined \<or> x |\<in>| ffUnion (valueType |`| owners ms k)"
      using x
      by (auto simp: read_attr_def inter_attr_def add_undefined_def union_norm_def split: if_splits)
    then show ?thesis
    proof
      assume "x = MUndefined"
      then show ?thesis by simp
    next
      assume "x |\<in>| ffUnion (valueType |`| owners ms k)"
      then obtain a where own: "a |\<in>| owners ms k" and xa: "x |\<in>| valueType a"
        by (auto simp: ffUnion.rep_eq)
      from own obtain c where c: "c |\<in>| ms"
        and ac: "a |\<in>| (case c of MRec r \<Rightarrow> (case fmlookup r k of None \<Rightarrow> {||} | Some a \<Rightarrow> {|a|})
                   | _ \<Rightarrow> {||})"
        unfolding owners_def by (auto simp: ffUnion.rep_eq)
      from ac obtain r where r: "c = MRec r" and look: "fmlookup r k = Some a"
        by (cases c) (auto split: option.splits)
      from look xa have "size x < size c" unfolding r by (simp add: val)
      also from c have "size c < size (MInter ms)" by (simp add: mem)
      finally show ?thesis .
    qed
  qed
  have elem: "size x < size (MArray ro e)" "size x < size (MDict ro e)" if "x |\<in>| e"
    for x :: mty and ro e
    using mem [OF that] by simp_all
  show ?thesis
    by (relation "measure (\<lambda>(s, t). size t)") (auto dest: elem attr inter simp del: mty.size)
qed

definition DeepReadonly :: "structural \<Rightarrow> ty \<Rightarrow> ty" where
  "DeepReadonly s T = deep_member s |`| T"

text \<open>
  \<^verbatim>\<open>type TupleToObject<T extends readonly any[]> = { [P in T[number]]: P }\<close>
  (5-Tuple2Object.ts), for a tuple type given by the list of its element types;
  \<^verbatim>\<open>T[number]\<close> is the sum of the element types. The key clause is over this indexed
  access.
\<close>

definition tuple_number :: "ty list \<Rightarrow> ty" where
  "tuple_number T = union_norm (ffUnion (fset_of_list T))"

definition TupleToObject :: "ty list \<Rightarrow> rec" where
  "TupleToObject T = Mapped Keep Keep (InType (tuple_number T)) (\<lambda>P. P)"

section \<open>The test utilities\<close>

text \<open>
  \<^verbatim>\<open>Equal<X, Y> = (<T>() => T extends X ? 1 : 2) extends (<T>() => T extends Y ? 1 : 2)
     ? true : false\<close>.
  Both sides are generic functions without parameters whose result is a conditional type
  that stays unevaluated, since its check type is the type parameter: \<open>Deferred U A B\<close>
  is \<^verbatim>\<open>T extends U ? A : B\<close> for the type parameter \<open>T\<close>, and \<open>Probe d\<close> is
  \<^verbatim>\<open><T>() => d\<close>. The host relates two such functions when it relates their results, with
  the two type parameters taken as one. It relates two unevaluated conditional types with
  the same check type when their \<^verbatim>\<open>extends\<close> types are identical and it relates the true
  branch to the true branch and the false branch to the false branch. The branches of
  \<^verbatim>\<open>Equal\<close> are the literal types \<^verbatim>\<open>1\<close> and \<^verbatim>\<open>2\<close>, so their comparison has no structural
  target. Whether two types are identical the host decides by its identity relation,
  which is written out here.

  Identity compares the types as the host has resolved them, so each sum is normalised
  where it is read. Two sums are identical when each member of either is identical to a
  member of the other, and a sum of several members is never identical to a single
  member (\<open>is_sum\<close>). Two records are identical when they have the same attribute names
  and, name by name, the same readonly flag, the same optional flag, and identical types
  read from the attribute (\<open>attr_type\<close>). Arrays are identical when both or neither is
  readonly and the element types are identical; records with an index signature
  likewise; function types when they have the same number of parameters, with identical
  types, and identical results; intersections when each constituent of either is
  identical to a constituent of the other. The remaining members, \<^verbatim>\<open>any\<close>, \<^verbatim>\<open>unknown\<close>,
  the primitives, \<^verbatim>\<open>undefined\<close>, \<^verbatim>\<open>object\<close> and the literals, are identical to themselves
  only.
\<close>

definition is_sum :: "ty \<Rightarrow> bool" where
  "is_sum S = (\<exists>a |\<in>| S. \<exists>b |\<in>| S. a \<noteq> b)"

definition attr_type :: "ty attr \<Rightarrow> ty" where
  "attr_type a = union_norm (read_attr a)"

function (sequential) identical_m :: "mty \<Rightarrow> mty \<Rightarrow> bool" where
  "identical_m (MRec r) b = (case b of
       MRec r' \<Rightarrow> fmdom r = fmdom r' \<and>
         (\<forall>k |\<in>| fmdom r. case fmlookup r k of None \<Rightarrow> False | Some a \<Rightarrow>
           (case fmlookup r' k of None \<Rightarrow> False | Some a' \<Rightarrow>
              readonly a = readonly a' \<and> optional a = optional a'
              \<and> is_sum (attr_type a) = is_sum (attr_type a')
              \<and> (\<forall>x |\<in>| attr_type a. \<exists>y |\<in>| attr_type a'. identical_m x y)
              \<and> (\<forall>y |\<in>| attr_type a'. \<exists>x |\<in>| attr_type a. identical_m y x)))
     | _ \<Rightarrow> False)"
| "identical_m (MArray ro e) b = (case b of
       MArray ro' e' \<Rightarrow> ro = ro' \<and> is_sum (union_norm e) = is_sum (union_norm e')
         \<and> (\<forall>x |\<in>| union_norm e. \<exists>y |\<in>| union_norm e'. identical_m x y)
         \<and> (\<forall>y |\<in>| union_norm e'. \<exists>x |\<in>| union_norm e. identical_m y x)
     | _ \<Rightarrow> False)"
| "identical_m (MDict ro v) b = (case b of
       MDict ro' v' \<Rightarrow> ro = ro' \<and> is_sum (union_norm v) = is_sum (union_norm v')
         \<and> (\<forall>x |\<in>| union_norm v. \<exists>y |\<in>| union_norm v'. identical_m x y)
         \<and> (\<forall>y |\<in>| union_norm v'. \<exists>x |\<in>| union_norm v. identical_m y x)
     | _ \<Rightarrow> False)"
| "identical_m (MFun ps r) b = (case b of
       MFun ps' r' \<Rightarrow>
         list_all2 (\<lambda>p q. is_sum (union_norm p) = is_sum (union_norm q)
            \<and> (\<forall>x |\<in>| union_norm p. \<exists>y |\<in>| union_norm q. identical_m x y)
            \<and> (\<forall>y |\<in>| union_norm q. \<exists>x |\<in>| union_norm p. identical_m y x)) ps ps'
         \<and> is_sum (union_norm r) = is_sum (union_norm r')
         \<and> (\<forall>x |\<in>| union_norm r. \<exists>y |\<in>| union_norm r'. identical_m x y)
         \<and> (\<forall>y |\<in>| union_norm r'. \<exists>x |\<in>| union_norm r. identical_m y x)
     | _ \<Rightarrow> False)"
| "identical_m (MInter ms) b = (case b of
       MInter ms' \<Rightarrow> (\<forall>x |\<in>| ms. \<exists>y |\<in>| ms'. identical_m x y)
         \<and> (\<forall>y |\<in>| ms'. \<exists>x |\<in>| ms. identical_m y x)
     | _ \<Rightarrow> False)"
| "identical_m a b = (a = b)"
  by pat_completeness auto
termination
proof -
  have mem: "Suc (size x) \<le> (\<Sum>y\<in>fset S. Suc (size y))" if "x |\<in>| S" for x :: mty and S
    using that by (intro member_le_sum) auto
  have nmem: "Suc (size x) \<le> (\<Sum>y\<in>fset S. Suc (size y))"
    if "x |\<in>| union_norm S" for x :: mty and S
  proof -
    from that have "x |\<in>| S" by (auto simp: union_norm_def split: if_splits)
    then show ?thesis by (rule mem)
  qed
  have attr: "size x \<le> (\<Sum>p\<in>fset (fset_of_fmap m).
      Suc (case p of (k, b) \<Rightarrow> size_attr (\<lambda>v. \<Sum>y\<in>fset v. Suc (size y)) b))"
    if a: "fmlookup m k = Some a" and x: "x |\<in>| attr_type a" for x :: mty and a m k
  proof -
    from a have inm: "(k, a) \<in> fset (fset_of_fmap m)" by simp
    have "x = MUndefined \<or> x |\<in>| valueType a"
      using x
      by (auto simp: attr_type_def read_attr_def add_undefined_def union_norm_def split: if_splits)
    then have "size x \<le> size_attr (\<lambda>v. \<Sum>y\<in>fset v. Suc (size y)) a"
      by (cases a) (auto dest: mem)
    also have "\<dots> \<le> (case (k, a) of (k, b) \<Rightarrow> Suc (size_attr (\<lambda>v. \<Sum>y\<in>fset v. Suc (size y)) b))"
      by simp
    also have "\<dots> \<le> (\<Sum>p\<in>fset (fset_of_fmap m).
        (case p of (k, b) \<Rightarrow> Suc (size_attr (\<lambda>v. \<Sum>y\<in>fset v. Suc (size y)) b)))"
      using inm by (rule member_le_sum) auto
    finally show ?thesis by (simp add: case_prod_beta)
  qed
  have lst: "Suc (size x) \<le> size_list (\<lambda>v. \<Sum>y\<in>fset v. Suc (size y)) ps"
    if "p \<in> set ps" and "x |\<in>| union_norm p" for x :: mty and p ps
  proof -
    from that(2) have "Suc (size x) \<le> (\<Sum>y\<in>fset p. Suc (size y))" by (rule nmem)
    moreover have "(\<Sum>y\<in>fset p. Suc (size y)) \<le> size_list (\<lambda>v. \<Sum>y\<in>fset v. Suc (size y)) ps"
      using that(1) by (simp add: size_list_estimation')
    ultimately show ?thesis by simp
  qed
  show ?thesis
    apply (relation "measure (\<lambda>(a, b). size a + size b)")
    apply auto
    subgoal premises p using attr [OF p(2) p(4)] attr [OF p(3) p(5)] by linarith
    subgoal premises p using attr [OF p(3) p(4)] attr [OF p(2) p(5)] by linarith
    subgoal premises p using nmem [OF p(1)] nmem [OF p(2)] by linarith
    subgoal premises p using nmem [OF p(1)] nmem [OF p(2)] by linarith
    subgoal premises p using nmem [OF p(1)] nmem [OF p(2)] by linarith
    subgoal premises p using nmem [OF p(1)] nmem [OF p(2)] by linarith
    subgoal premises p using lst [OF p(1) p(3)] lst [OF p(2) p(4)] by linarith
    subgoal premises p using lst [OF p(2) p(3)] lst [OF p(1) p(4)] by linarith
    subgoal premises p using nmem [OF p(1)] nmem [OF p(2)] by linarith
    subgoal premises p using nmem [OF p(1)] nmem [OF p(2)] by linarith
    subgoal premises p using mem [OF p(1)] mem [OF p(2)] by linarith
    subgoal premises p using mem [OF p(1)] mem [OF p(2)] by linarith
    done
qed

declare identical_m.simps [simp del]

definition identical :: "ty \<Rightarrow> ty \<Rightarrow> bool" where
  "identical X Y =
     (is_sum (union_norm X) = is_sum (union_norm Y)
      \<and> (\<forall>x |\<in>| union_norm X. \<exists>y |\<in>| union_norm Y. identical_m x y)
      \<and> (\<forall>y |\<in>| union_norm Y. \<exists>x |\<in>| union_norm X. identical_m y x))"

datatype deferred = Deferred ty ty ty

datatype probe = Probe deferred

fun deferred_related :: "deferred \<Rightarrow> deferred \<Rightarrow> bool" where
  "deferred_related (Deferred U A B) (Deferred U' A' B') =
     (identical U U' \<and> assignable plain_host A A' \<and> assignable plain_host B B')"

fun probe_assignable :: "probe \<Rightarrow> probe \<Rightarrow> bool" where
  "probe_assignable (Probe d) (Probe d') = deferred_related d d'"

definition Equal :: "ty \<Rightarrow> ty \<Rightarrow> ty" where
  "Equal X Y =
     (if probe_assignable (Probe (Deferred X (TNum 1) (TNum 2)))
                          (Probe (Deferred Y (TNum 1) (TNum 2)))
      then TTrue else TFalse)"

text \<open>\<^verbatim>\<open>IsAny<T> = 0 extends (1 & T) ? true : false\<close>.\<close>

definition IsAny :: "structural \<Rightarrow> ty \<Rightarrow> ty" where
  "IsAny s T = Cond1 s (TNum 0) (intersect (TNum 1) T) TTrue TFalse"

text \<open>\<^verbatim>\<open>NotAny<T> = true extends IsAny<T> ? false : true\<close>.\<close>

definition NotAny :: "structural \<Rightarrow> ty \<Rightarrow> ty" where
  "NotAny s T = Cond1 s TTrue (IsAny s T) TFalse TTrue"

text \<open>\<^verbatim>\<open>Expect<T extends true> = T\<close>.\<close>

definition Expect :: "structural \<Rightarrow> ty \<Rightarrow> error + ty" where
  "Expect s T = (if assignable s T TTrue then Inr T else Inl ConstraintViolation)"

section \<open>Well-formed records and example types\<close>

text \<open>
  A record handed to an alias is in the host's normal form: each value type is a
  normalised sum, and the value type of an optional attribute does not list
  \<^verbatim>\<open>undefined\<close>, which reading the attribute adds.
\<close>

definition wf_attr :: "ty attr \<Rightarrow> bool" where
  "wf_attr a = (canonical (valueType a) \<and> (optional a \<longrightarrow> MUndefined |\<notin>| valueType a))"

definition wf_rec :: "rec \<Rightarrow> bool" where
  "wf_rec T = fmpred (\<lambda>k a. wf_attr a) T"

text \<open>
  A type is in normal form at every depth when each sum in it is normalised and each
  attribute of each record in it is well formed.
\<close>

function (sequential) normal_m :: "mty \<Rightarrow> bool" where
  "normal_m (MRec r) =
     (\<forall>k |\<in>| fmdom r. case fmlookup r k of None \<Rightarrow> True
        | Some a \<Rightarrow> wf_attr a \<and> (\<forall>x |\<in>| valueType a. normal_m x))"
| "normal_m (MArray ro e) = (canonical e \<and> (\<forall>x |\<in>| e. normal_m x))"
| "normal_m (MDict ro v) = (canonical v \<and> (\<forall>x |\<in>| v. normal_m x))"
| "normal_m (MFun ps r) =
     ((\<forall>p \<in> set ps. canonical p \<and> (\<forall>x |\<in>| p. normal_m x))
      \<and> canonical r \<and> (\<forall>x |\<in>| r. normal_m x))"
| "normal_m (MInter ms) = (\<forall>x |\<in>| ms. normal_m x)"
| "normal_m a = True"
  by pat_completeness auto
termination
proof -
  have mem: "Suc (size x) \<le> (\<Sum>y\<in>fset S. Suc (size y))" if "x |\<in>| S" for x :: mty and S
    using that by (intro member_le_sum) auto
  have attr: "size x \<le> (\<Sum>p\<in>fset (fset_of_fmap m).
      Suc (case p of (k, b) \<Rightarrow> size_attr (\<lambda>v. \<Sum>y\<in>fset v. Suc (size y)) b))"
    if a: "fmlookup m k = Some a" and x: "x |\<in>| valueType a" for x :: mty and a m k
  proof -
    from a have inm: "(k, a) \<in> fset (fset_of_fmap m)" by simp
    have "size x \<le> size_attr (\<lambda>v. \<Sum>y\<in>fset v. Suc (size y)) a"
      using x by (cases a) (auto dest: mem)
    also have "\<dots> \<le> (case (k, a) of (k, b) \<Rightarrow> Suc (size_attr (\<lambda>v. \<Sum>y\<in>fset v. Suc (size y)) b))"
      by simp
    also have "\<dots> \<le> (\<Sum>p\<in>fset (fset_of_fmap m).
        (case p of (k, b) \<Rightarrow> Suc (size_attr (\<lambda>v. \<Sum>y\<in>fset v. Suc (size y)) b)))"
      using inm by (rule member_le_sum) auto
    finally show ?thesis by (simp add: case_prod_beta)
  qed
  have lst: "Suc (size x) \<le> size_list (\<lambda>v. \<Sum>y\<in>fset v. Suc (size y)) ps"
    if "p \<in> set ps" and "x |\<in>| p" for x :: mty and p ps
  proof -
    from that(2) have "Suc (size x) \<le> (\<Sum>y\<in>fset p. Suc (size y))" by (rule mem)
    moreover have "(\<Sum>y\<in>fset p. Suc (size y)) \<le> size_list (\<lambda>v. \<Sum>y\<in>fset v. Suc (size y)) ps"
      using that(1) by (simp add: size_list_estimation')
    ultimately show ?thesis by simp
  qed
  show ?thesis
    apply (relation "measure size")
    apply auto
    subgoal premises p using attr [OF p(2) p(3)] by linarith
    subgoal premises p using mem [OF p(1)] by linarith
    subgoal premises p using mem [OF p(1)] by linarith
    subgoal premises p using lst [OF p(1) p(2)] by linarith
    subgoal premises p using mem [OF p(1)] by linarith
    subgoal premises p using mem [OF p(1)] by linarith
    done
qed

definition normal :: "ty \<Rightarrow> bool" where
  "normal T = (canonical T \<and> (\<forall>x |\<in>| T. normal_m x))"




text \<open>\<^verbatim>\<open>{ readonly id: number; name: string }\<close>, the \<^verbatim>\<open>User\<close> of the comments in 4-Readonly.ts.\<close>

definition user_ro :: rec where
  "user_ro = fmap_of_list [(''id'', Attr True False TNumber), (''name'', Attr False False TString)]"

text \<open>\<^verbatim>\<open>{ readonly id: number; name?: string }\<close>: one attribute with each modifier.\<close>

definition user_mod :: rec where
  "user_mod = fmap_of_list [(''id'', Attr True False TNumber), (''name'', Attr False True TString)]"

text \<open>\<^verbatim>\<open>{ name?: string; age: number }\<close>.\<close>

definition user_opt :: rec where
  "user_opt = fmap_of_list [(''name'', Attr False True TString), (''age'', Attr False False TNumber)]"










section \<open>Auxiliary facts\<close>

subsection \<open>Finite sets and maps\<close>

lemma ffilter_finsert:
  "ffilter P (finsert x A) = (if P x then finsert x (ffilter P A) else ffilter P A)"
  by auto

lemma ffilter_fempty: "ffilter P {||} = {||}"
  by auto

lemma fmlookup_tab [simp]:
  "fmlookup (fm_tabulate S f) x = (if x |\<in>| S then Some (f x) else None)"
  by (simp add: fm_tabulate_def fmlookup_of_list map_of_map_restrict restrict_map_def)

lemma ffUnion_member: "x |\<in>| ffUnion A \<longleftrightarrow> (\<exists>S. S |\<in>| A \<and> x |\<in>| S)"
  by (induction A) auto

lemma ffUnion_fimage_member: "x |\<in>| ffUnion (f |`| A) \<longleftrightarrow> (\<exists>a. a |\<in>| A \<and> x |\<in>| f a)"
  by (auto simp: ffUnion_member)

subsection \<open>Keys and indexed access\<close>

lemma key_names_key_union: "key_names (key_union N) = N"
  by (auto simp: key_names_def key_union_def ffUnion_fimage_member split: option.splits)

lemma keys_named_key_union: "k |\<in>| N \<Longrightarrow> keys_named (key_union N) k = TStr k"
  by (auto simp: keys_named_def key_union_def)

lemma key_names_Keyof: "key_names (Keyof T) = fmdom T"
  by (simp add: Keyof_def key_names_key_union)

lemma keys_named_Keyof: "k |\<in>| fmdom T \<Longrightarrow> keys_named (Keyof T) k = TStr k"
  by (simp add: Keyof_def keys_named_key_union)

lemma Index_single:
  "fmlookup T k = Some a \<Longrightarrow> Index T (TStr k) = union_norm (read_attr a)"
  by (simp add: Index_def)

subsection \<open>Normal forms of sums\<close>

lemma subsumed_finsert_undefined: "subsumed (finsert MUndefined V) m = subsumed V m"
  by (cases "(V, m)" rule: subsumed.cases) auto

lemma union_norm_top:
  "MAny |\<in>| S \<Longrightarrow> union_norm S = TAny"
  "MAny |\<notin>| S \<Longrightarrow> MUnknown |\<in>| S \<Longrightarrow> union_norm S = TUnknown"
  by (simp_all add: union_norm_def)

lemma union_norm_plain:
  "MAny |\<notin>| S \<Longrightarrow> MUnknown |\<notin>| S \<Longrightarrow> union_norm S = ffilter (\<lambda>m. \<not> subsumed S m) S"
  by (simp add: union_norm_def)

lemma subsumed_ffilter:
  "subsumed (ffilter (\<lambda>m. \<not> subsumed S m) S) m = subsumed S m"
  by (cases "(S, m)" rule: subsumed.cases) auto

lemma union_norm_idem: "union_norm (union_norm S) = union_norm S"
proof (cases "MAny |\<in>| S")
  case True
  then show ?thesis by (simp add: union_norm_top)
next
  case noany: False
  show ?thesis
  proof (cases "MUnknown |\<in>| S")
    case True
    with noany show ?thesis by (simp add: union_norm_top)
  next
    case False
    with noany have eq: "union_norm S = ffilter (\<lambda>m. \<not> subsumed S m) S"
      by (rule union_norm_plain)
    have "MAny |\<notin>| union_norm S" "MUnknown |\<notin>| union_norm S"
      using noany False by (simp_all add: eq)
    then have "union_norm (union_norm S)
        = ffilter (\<lambda>m. \<not> subsumed (union_norm S) m) (union_norm S)"
      by (rule union_norm_plain)
    also have "\<dots> = union_norm S"
      unfolding eq by (auto simp: subsumed_ffilter)
    finally show ?thesis .
  qed
qed

lemma canonical_union_norm: "canonical (union_norm S)"
  by (simp add: canonical_def union_norm_idem)

lemma canonical_any: "canonical V \<Longrightarrow> MAny |\<in>| V \<Longrightarrow> V = TAny"
  by (simp add: canonical_def union_norm_def split: if_splits)

lemma canonical_unknown: "canonical V \<Longrightarrow> MUnknown |\<in>| V \<Longrightarrow> V = TUnknown"
  by (auto simp: canonical_def union_norm_def split: if_splits)

lemma strip_add_undefined:
  assumes "canonical V" and "MUndefined |\<notin>| V"
  shows "strip_undefined (add_undefined V) = V"
proof (cases "MAny |\<in>| V")
  case True
  with assms(1) have "V = TAny" by (rule canonical_any)
  then show ?thesis
    by (simp add: add_undefined_def strip_undefined_def union_norm_top ffilter_finsert ffilter_fempty)
next
  case noany: False
  show ?thesis
  proof (cases "MUnknown |\<in>| V")
    case True
    with assms(1) have "V = TUnknown" by (rule canonical_unknown)
    then show ?thesis
      by (simp add: add_undefined_def strip_undefined_def union_norm_def ffilter_finsert ffilter_fempty)
  next
    case False
    from assms(1) noany False have keep: "ffilter (\<lambda>m. \<not> subsumed V m) V = V"
      by (simp add: canonical_def union_norm_def)
    then have nosub: "m |\<in>| V \<Longrightarrow> \<not> subsumed V m" for m
      by (metis ffmember_filter)
    have "add_undefined V = ffilter (\<lambda>m. \<not> subsumed V m) (finsert MUndefined V)"
      using noany False
      by (simp add: add_undefined_def union_norm_def subsumed_finsert_undefined)
    also have "\<dots> = finsert MUndefined V"
      using nosub by auto
    finally show ?thesis
      using assms(2) by (auto simp: strip_undefined_def)
  qed
qed

lemma read_attr_wf:
  assumes "wf_attr a"
  shows "union_norm (read_attr a) = read_attr a"
    and "optional a \<Longrightarrow> strip_undefined (read_attr a) = valueType a"
    and "\<not> optional a \<Longrightarrow> read_attr a = valueType a"
  using assms
  by (auto simp: wf_attr_def read_attr_def add_undefined_def union_norm_idem canonical_def
      strip_add_undefined [unfolded add_undefined_def canonical_def])

subsection \<open>Mapped types over a well-formed record\<close>

lemma Mapped_lookup:
  "fmlookup (Mapped ro opt c tmpl) n =
     (if n |\<in>| key_names (key_type c)
      then Some (mapped_attr (modifiers_source c) ro opt (key_type c) tmpl n) else None)"
  by (simp add: Mapped_def)

lemma fmdom_Mapped: "fmdom (Mapped ro opt c tmpl) = key_names (key_type c)"
  by (rule fset_eqI) (simp add: fmlookup_dom_iff Mapped_lookup)

lemma homomorphic_attr:
  assumes "wf_attr a" and "fmlookup T k = Some a" and "keys_named K k = TStr k"
  shows "mapped_attr (Some T) ro Keep K (\<lambda>P. Index T P) k =
           Attr (toggle ro (readonly a)) (optional a) (valueType a)"
  using assms read_attr_wf [OF assms(1)]
  by (simp add: mapped_attr_def Index_single Let_def)

lemma plain_attr:
  assumes "wf_attr a" and "fmlookup T k = Some a" and "keys_named K k = TStr k"
  shows "mapped_attr None Keep Keep K (\<lambda>P. Index T P) k = Attr False False (read_attr a)"
  using assms read_attr_wf [OF assms(1)]
  by (simp add: mapped_attr_def Index_single Let_def)

lemma wf_rec_lookup: "wf_rec T \<Longrightarrow> fmlookup T k = Some a \<Longrightarrow> wf_attr a"
  by (auto simp: wf_rec_def dest: fmpredD)

lemma homomorphic_all_keys:
  assumes "wf_rec T"
  shows "Mapped ro Keep (InKeyof T) (\<lambda>P. Index T P) =
           fmmap (\<lambda>a. Attr (toggle ro (readonly a)) (optional a) (valueType a)) T"
proof (rule fmap_ext)
  fix k
  show "fmlookup (Mapped ro Keep (InKeyof T) (\<lambda>P. Index T P)) k =
        fmlookup (fmmap (\<lambda>a. Attr (toggle ro (readonly a)) (optional a) (valueType a)) T) k"
  proof (cases "fmlookup T k")
    case None
    then show ?thesis
      by (simp add: Mapped_lookup key_names_Keyof fmdom_notI)
  next
    case (Some a)
    with assms have "wf_attr a" by (auto dest: wf_rec_lookup)
    with Some show ?thesis
      by (simp add: Mapped_lookup key_names_Keyof fmlookup_dom_iff homomorphic_attr
          keys_named_Keyof)
  qed
qed

lemma MyReadonly_fmmap:
  "wf_rec T \<Longrightarrow> MyReadonly T = fmmap (\<lambda>a. Attr True (optional a) (valueType a)) T"
  by (simp add: MyReadonly_def homomorphic_all_keys)

lemma MyMutable_fmmap:
  "wf_rec T \<Longrightarrow> MyMutable T = fmmap (\<lambda>a. Attr False (optional a) (valueType a)) T"
  by (simp add: MyMutable_def homomorphic_all_keys)

lemma wf_rec_fmmap:
  "wf_rec T \<Longrightarrow> wf_rec (fmmap (\<lambda>a. Attr r (optional a) (valueType a)) T)"
  by (auto simp: wf_rec_def wf_attr_def intro!: fmpredI dest: fmpredD)

lemma assignable_keys:
  "assignable s (key_union N) (Keyof T) \<longleftrightarrow> N |\<subseteq>| fmdom T"
  by (auto simp: assignable_def Keyof_def key_union_def has_structural_def)

lemma assignable_refl_keys: "assignable s (Keyof T) (Keyof T)"
  unfolding Keyof_def [of T, THEN arg_cong [where f = "\<lambda>K. assignable s K (Keyof T)"]]
  by (simp add: assignable_keys)

lemma attr_eta: "Attr (readonly a) (optional a) (valueType a) = a"
  by (cases a) simp

lemma Mapped_param_keyof:
  "Mapped ro opt (InParam T (Keyof T)) tmpl = Mapped ro opt (InKeyof T) tmpl"
  by (simp add: Mapped_def)

lemma MyPick_all_keys: "wf_rec T \<Longrightarrow> MyPick s T (Keyof T) = Inr T"
  by (simp add: MyPick_def assignable_refl_keys Mapped_param_keyof homomorphic_all_keys
      attr_eta fmap.map_ident)

subsection \<open>The identity relation\<close>

lemma identical_m_refl_aux: "a = b \<Longrightarrow> identical_m a b"
  apply (induction a b rule: identical_m.induct)
  apply (auto simp: identical_m.simps split: option.splits mty.splits)
  subgoal by (meson fmdomE)
  subgoal by blast
  subgoal by blast
  subgoal by blast
  subgoal by (rule list.rel_refl_strong) blast
  subgoal by blast
  subgoal by blast
  done

lemma identical_m_refl: "identical_m a a"
  by (simp add: identical_m_refl_aux)

lemma identical_refl: "identical X X"
  using identical_m_refl by (auto simp: identical_def)

lemma Equal_identical: "Equal X Y = (if identical X Y then TTrue else TFalse)"
  by (simp add: Equal_def assignable_def)

lemma Equal_same: "X = Y \<Longrightarrow> Equal X Y = TTrue"
  by (simp add: Equal_identical identical_refl)

lemma sums_equal:
  assumes "\<forall>x |\<in>| S. \<exists>y |\<in>| T. R x y" and "\<forall>y |\<in>| T. \<exists>x |\<in>| S. R y x"
    and "\<And>x y. x |\<in>| S \<Longrightarrow> y |\<in>| T \<Longrightarrow> R x y \<Longrightarrow> x = y"
    and "\<And>x y. x |\<in>| S \<Longrightarrow> y |\<in>| T \<Longrightarrow> R y x \<Longrightarrow> y = x"
  shows "S = T"
  using assms by (intro fset_eqI) blast

lemma attr_type_member:
  "x |\<in>| attr_type a \<Longrightarrow> x = MUndefined \<or> x |\<in>| valueType a"
  by (auto simp: attr_type_def read_attr_def add_undefined_def union_norm_def split: if_splits)

lemma attr_type_inj:
  assumes "wf_attr a" and "wf_attr a'" and "optional a = optional a'"
    and "attr_type a = attr_type a'"
  shows "valueType a = valueType a'"
proof (cases "optional a")
  case True
  with assms(3) have "optional a'" by simp
  from read_attr_wf(1,2) [OF assms(1)] True
  have "valueType a = strip_undefined (attr_type a)" by (simp add: attr_type_def)
  moreover from read_attr_wf(1,2) [OF assms(2)] \<open>optional a'\<close>
  have "valueType a' = strip_undefined (attr_type a')" by (simp add: attr_type_def)
  ultimately show ?thesis using assms(4) by simp
next
  case False
  with assms(3) have "\<not> optional a'" by simp
  from read_attr_wf(1,3) [OF assms(1)] False
  have "valueType a = attr_type a" by (simp add: attr_type_def)
  moreover from read_attr_wf(1,3) [OF assms(2)] \<open>\<not> optional a'\<close>
  have "valueType a' = attr_type a'" by (simp add: attr_type_def)
  ultimately show ?thesis using assms(4) by simp
qed

lemma identical_m_eq:
  "identical_m a b \<Longrightarrow> normal_m a \<Longrightarrow> normal_m b \<Longrightarrow> a = b"
proof (induction a b rule: identical_m.induct)
  case (1 r b)
  from "1.prems"(1) obtain r' where b: "b = MRec r'"
    by (cases b) (simp_all add: identical_m.simps)
  from "1.prems"(1) have dom: "fmdom r = fmdom r'"
    and all: "\<forall>k |\<in>| fmdom r. case fmlookup r k of None \<Rightarrow> False | Some a \<Rightarrow>
       (case fmlookup r' k of None \<Rightarrow> False | Some a' \<Rightarrow>
          readonly a = readonly a' \<and> optional a = optional a'
          \<and> is_sum (attr_type a) = is_sum (attr_type a')
          \<and> (\<forall>x |\<in>| attr_type a. \<exists>y |\<in>| attr_type a'. identical_m x y)
          \<and> (\<forall>y |\<in>| attr_type a'. \<exists>x |\<in>| attr_type a. identical_m y x))"
    unfolding b by (simp_all add: identical_m.simps)
  have each: "\<exists>a'. fmlookup r' k = Some a' \<and> readonly a = readonly a' \<and> optional a = optional a'
        \<and> (\<forall>x |\<in>| attr_type a. \<exists>y |\<in>| attr_type a'. identical_m x y)
        \<and> (\<forall>y |\<in>| attr_type a'. \<exists>x |\<in>| attr_type a. identical_m y x)"
    if look: "fmlookup r k = Some a" for k a
  proof -
    from look have "k |\<in>| fmdom r" by (rule fmdomI)
    with all have "case fmlookup r k of None \<Rightarrow> False | Some a \<Rightarrow>
       (case fmlookup r' k of None \<Rightarrow> False | Some a' \<Rightarrow>
          readonly a = readonly a' \<and> optional a = optional a'
          \<and> is_sum (attr_type a) = is_sum (attr_type a')
          \<and> (\<forall>x |\<in>| attr_type a. \<exists>y |\<in>| attr_type a'. identical_m x y)
          \<and> (\<forall>y |\<in>| attr_type a'. \<exists>x |\<in>| attr_type a. identical_m y x))"
      by blast
    with look show ?thesis by (cases "fmlookup r' k") simp_all
  qed
  have "fmlookup r k = fmlookup r' k" for k
  proof (cases "fmlookup r k")
    case None
    then have "k |\<notin>| fmdom r'" using dom by (metis fmdom_notI)
    with None show ?thesis by (simp add: fmdom_notD)
  next
    case (Some a)
    from each [OF Some] obtain a' where look': "fmlookup r' k = Some a'"
      and ro: "readonly a = readonly a'" and opt: "optional a = optional a'"
      and fw: "\<forall>x |\<in>| attr_type a. \<exists>y |\<in>| attr_type a'. identical_m x y"
      and bw: "\<forall>y |\<in>| attr_type a'. \<exists>x |\<in>| attr_type a. identical_m y x"
      by blast
    from Some have kd: "k |\<in>| fmdom r" by (simp add: fmlookup_dom_iff)
    from "1.prems"(2) Some kd have wfa: "wf_attr a" and na: "\<forall>x |\<in>| valueType a. normal_m x"
      by (auto split: option.splits)
    from look' have kd': "k |\<in>| fmdom r'" by (simp add: fmlookup_dom_iff)
    from "1.prems"(3) look' kd' have wfa': "wf_attr a'"
      and na': "\<forall>x |\<in>| valueType a'. normal_m x"
      unfolding b by (auto split: option.splits)
    have nx: "normal_m x" if "x |\<in>| attr_type a" for x
      using attr_type_member [OF that] na by auto
    have ny: "normal_m y" if "y |\<in>| attr_type a'" for y
      using attr_type_member [OF that] na' by auto
    have "attr_type a = attr_type a'"
      using fw bw
    proof (rule sums_equal)
      fix x y assume "x |\<in>| attr_type a" "y |\<in>| attr_type a'"
      then show "identical_m x y \<Longrightarrow> x = y"
        using "1.IH"(1) [OF b kd Some look'] nx ny by blast
      show "identical_m y x \<Longrightarrow> y = x"
        using "1.IH"(2) [OF b kd Some look'] nx ny
          \<open>x |\<in>| attr_type a\<close> \<open>y |\<in>| attr_type a'\<close> by blast
    qed
    with wfa wfa' opt have "valueType a = valueType a'" by (rule attr_type_inj)
    with ro opt have "a = a'" by (cases a; cases a') simp
    with Some look' show ?thesis by simp
  qed
  then have "r = r'" by (rule fmap_ext)
  with b show ?case by simp
next
  case (2 ro e b)
  from "2.prems"(1) obtain ro' e' where b: "b = MArray ro' e'"
    by (cases b) (simp_all add: identical_m.simps)
  from "2.prems"(2) have ce: "union_norm e = e" and ne: "\<forall>x |\<in>| e. normal_m x"
    by (simp_all add: canonical_def)
  from "2.prems"(3) have ce': "union_norm e' = e'" and ne': "\<forall>x |\<in>| e'. normal_m x"
    unfolding b by (simp_all add: canonical_def)
  from "2.prems"(1) have ro: "ro = ro'"
    and fw: "\<forall>x |\<in>| e. \<exists>y |\<in>| e'. identical_m x y"
    and bw: "\<forall>y |\<in>| e'. \<exists>x |\<in>| e. identical_m y x"
    unfolding b by (simp_all add: identical_m.simps ce ce')
  have "e = e'"
    using fw bw
  proof (rule sums_equal)
    fix x y assume "x |\<in>| e" "y |\<in>| e'"
    then show "identical_m x y \<Longrightarrow> x = y"
      using "2.IH"(1) [OF b] ne ne' by (simp add: ce ce')
    show "identical_m y x \<Longrightarrow> y = x"
      using "2.IH"(2) [OF b] ne ne' \<open>x |\<in>| e\<close> \<open>y |\<in>| e'\<close> by (simp add: ce ce')
  qed
  with b ro show ?case by simp
next
  case (3 ro e b)
  from "3.prems"(1) obtain ro' e' where b: "b = MDict ro' e'"
    by (cases b) (simp_all add: identical_m.simps)
  from "3.prems"(2) have ce: "union_norm e = e" and ne: "\<forall>x |\<in>| e. normal_m x"
    by (simp_all add: canonical_def)
  from "3.prems"(3) have ce': "union_norm e' = e'" and ne': "\<forall>x |\<in>| e'. normal_m x"
    unfolding b by (simp_all add: canonical_def)
  from "3.prems"(1) have ro: "ro = ro'"
    and fw: "\<forall>x |\<in>| e. \<exists>y |\<in>| e'. identical_m x y"
    and bw: "\<forall>y |\<in>| e'. \<exists>x |\<in>| e. identical_m y x"
    unfolding b by (simp_all add: identical_m.simps ce ce')
  have "e = e'"
    using fw bw
  proof (rule sums_equal)
    fix x y assume "x |\<in>| e" "y |\<in>| e'"
    then show "identical_m x y \<Longrightarrow> x = y"
      using "3.IH"(1) [OF b] ne ne' by (simp add: ce ce')
    show "identical_m y x \<Longrightarrow> y = x"
      using "3.IH"(2) [OF b] ne ne' \<open>x |\<in>| e\<close> \<open>y |\<in>| e'\<close> by (simp add: ce ce')
  qed
  with b ro show ?case by simp
next
  case (4 ps r b)
  from "4.prems"(1) obtain ps' r' where b: "b = MFun ps' r'"
    by (cases b) (simp_all add: identical_m.simps)
  from "4.prems"(2) have cp: "\<And>p. p \<in> set ps \<Longrightarrow> union_norm p = p"
    and np: "\<And>p x. p \<in> set ps \<Longrightarrow> x |\<in>| p \<Longrightarrow> normal_m x"
    and cr: "union_norm r = r" and nr: "\<forall>x |\<in>| r. normal_m x"
    by (simp_all add: canonical_def)
  from "4.prems"(3) have cp': "\<And>p. p \<in> set ps' \<Longrightarrow> union_norm p = p"
    and np': "\<And>p x. p \<in> set ps' \<Longrightarrow> x |\<in>| p \<Longrightarrow> normal_m x"
    and cr': "union_norm r' = r'" and nr': "\<forall>x |\<in>| r'. normal_m x"
    unfolding b by (simp_all add: canonical_def)
  from "4.prems"(1) have params: "list_all2 (\<lambda>p q.
        is_sum (union_norm p) = is_sum (union_norm q)
        \<and> (\<forall>x |\<in>| union_norm p. \<exists>y |\<in>| union_norm q. identical_m x y)
        \<and> (\<forall>y |\<in>| union_norm q. \<exists>x |\<in>| union_norm p. identical_m y x)) ps ps'"
    and fw: "\<forall>x |\<in>| r. \<exists>y |\<in>| r'. identical_m x y"
    and bw: "\<forall>y |\<in>| r'. \<exists>x |\<in>| r. identical_m y x"
    unfolding b by (simp_all add: identical_m.simps cr cr')
  from params have "list_all2 (=) ps ps'"
  proof (rule list.rel_mono_strong)
    fix p q
    assume p: "p \<in> set ps" and q: "q \<in> set ps'"
      and "is_sum (union_norm p) = is_sum (union_norm q)
        \<and> (\<forall>x |\<in>| union_norm p. \<exists>y |\<in>| union_norm q. identical_m x y)
        \<and> (\<forall>y |\<in>| union_norm q. \<exists>x |\<in>| union_norm p. identical_m y x)"
    then have pfw: "\<forall>x |\<in>| p. \<exists>y |\<in>| q. identical_m x y"
      and pbw: "\<forall>y |\<in>| q. \<exists>x |\<in>| p. identical_m y x"
      by (simp_all add: cp cp')
    show "p = q"
      using pfw pbw
    proof (rule sums_equal)
      fix x y assume "x |\<in>| p" "y |\<in>| q"
      then show "identical_m x y \<Longrightarrow> x = y"
        using "4.IH"(1) [OF b p q] np [OF p] np' [OF q] by (simp add: cp [OF p] cp' [OF q])
      show "identical_m y x \<Longrightarrow> y = x"
        using "4.IH"(2) [OF b p q] np [OF p] np' [OF q] \<open>x |\<in>| p\<close> \<open>y |\<in>| q\<close>
        by (simp add: cp [OF p] cp' [OF q])
    qed
  qed
  then have "ps = ps'" by (simp add: list.rel_eq)
  moreover have "r = r'"
    using fw bw
  proof (rule sums_equal)
    fix x y assume "x |\<in>| r" "y |\<in>| r'"
    then show "identical_m x y \<Longrightarrow> x = y"
      using "4.IH"(3) [OF b] nr nr' by (simp add: cr cr')
    show "identical_m y x \<Longrightarrow> y = x"
      using "4.IH"(4) [OF b] nr nr' \<open>x |\<in>| r\<close> \<open>y |\<in>| r'\<close> by (simp add: cr cr')
  qed
  ultimately show ?case using b by simp
next
  case (5 ms b)
  from "5.prems"(1) obtain ms' where b: "b = MInter ms'"
    by (cases b) (simp_all add: identical_m.simps)
  from "5.prems"(2) have ne: "\<forall>x |\<in>| ms. normal_m x" by simp
  from "5.prems"(3) have ne': "\<forall>x |\<in>| ms'. normal_m x" unfolding b by simp
  from "5.prems"(1) have fw: "\<forall>x |\<in>| ms. \<exists>y |\<in>| ms'. identical_m x y"
    and bw: "\<forall>y |\<in>| ms'. \<exists>x |\<in>| ms. identical_m y x"
    unfolding b by (simp_all add: identical_m.simps)
  have "ms = ms'"
    using fw bw
  proof (rule sums_equal)
    fix x y assume "x |\<in>| ms" "y |\<in>| ms'"
    then show "identical_m x y \<Longrightarrow> x = y"
      using "5.IH"(1) [OF b] ne ne' by simp
    show "identical_m y x \<Longrightarrow> y = x"
      using "5.IH"(2) [OF b] ne ne' \<open>x |\<in>| ms\<close> \<open>y |\<in>| ms'\<close> by simp
  qed
  with b show ?case by simp
qed (simp_all add: identical_m.simps)

lemma identical_eq:
  assumes "normal X" and "normal Y" and "identical X Y"
  shows "X = Y"
proof -
  from assms(1,2) have cx: "union_norm X = X" and cy: "union_norm Y = Y"
    by (simp_all add: normal_def canonical_def)
  from assms(3) have fw: "\<forall>x |\<in>| X. \<exists>y |\<in>| Y. identical_m x y"
    and bw: "\<forall>y |\<in>| Y. \<exists>x |\<in>| X. identical_m y x"
    by (simp_all add: identical_def cx cy)
  from fw bw show ?thesis
  proof (rule sums_equal)
    fix x y assume "x |\<in>| X" "y |\<in>| Y"
    with assms(1,2) have "normal_m x" "normal_m y" by (simp_all add: normal_def)
    then show "identical_m x y \<Longrightarrow> x = y" "identical_m y x \<Longrightarrow> y = x"
      by (auto dest: identical_m_eq)
  qed
qed

lemma Equal_structural:
  "normal X \<Longrightarrow> normal Y \<Longrightarrow> Equal X Y = (if X = Y then TTrue else TFalse)"
  by (auto simp: Equal_identical identical_refl dest: identical_eq)

subsection \<open>Records that differ in one attribute\<close>

lemma fmupd_eq_iff: "fmupd k a T = fmupd k b T \<longleftrightarrow> a = b"
  by (metis fmupd_lookup option.inject)

lemma Equal_resolved_types:
  "Equal (TRec (fmap_of_list [(''a'', Attr False True TNumber)]))
         (TRec (fmap_of_list [(''a'', Attr False True {|MNumber, MUndefined|})])) = TTrue
   \<and> Equal (TRec (fmap_of_list [(''a'', Attr False False TString)]))
            (TRec (fmap_of_list [(''a'', Attr False False {|MString, MLit (LStr ''x'')|})])) = TTrue
   \<and> Equal TBoolean TTrue = TFalse \<and> Equal TAny TString = TFalse \<and> Equal TAny TAny = TTrue"
  by code_simp

subsection \<open>Exclusion\<close>

lemma ffUnion_singletons: "ffUnion ((\<lambda>m. {|m|}) |`| X) = X"
  by (rule fset_eqI) (simp add: ffUnion_fimage_member)

lemma assignable_never: "assignable s S TNever \<longleftrightarrow> S = TNever"
  by (auto simp: assignable_def has_structural_def)

lemma Cond1_exclude_never: "Cond1 s {|m|} TNever TNever {|m|} = {|m|}"
  by (auto simp: Cond1_def assignable_never is_top_def union_norm_def)

lemma MyExclude_never: "MyExclude s X TNever = union_norm X"
  by (simp add: MyExclude_def CondDist_def Cond1_exclude_never ffUnion_singletons)

lemma union_norm_empty: "union_norm TNever = TNever"
  by (simp add: union_norm_def ffilter_fempty)

lemma union_norm_member: "x |\<in>| union_norm S \<Longrightarrow> x |\<in>| S"
  by (auto simp: union_norm_def split: if_splits)

lemma subsumed_mono: "subsumed X m \<Longrightarrow> subsumed (X |\<union>| Y) m"
  by (cases "(X, m)" rule: subsumed.cases) auto

lemma subsumed_norm_union:
  assumes "MAny |\<notin>| X" "MUnknown |\<notin>| X" "MAny |\<notin>| Y" "MUnknown |\<notin>| Y"
  shows "subsumed (union_norm X |\<union>| union_norm Y) m = subsumed (X |\<union>| Y) m"
  using assms by (cases "(X, m)" rule: subsumed.cases) (auto simp: union_norm_def)

lemma union_norm_union: "union_norm (union_norm X |\<union>| union_norm Y) = union_norm (X |\<union>| Y)"
proof (cases "MAny |\<in>| X |\<union>| Y")
  case True
  then have "MAny |\<in>| union_norm X |\<union>| union_norm Y"
    by (auto simp: union_norm_def)
  with True show ?thesis by (simp add: union_norm_top)
next
  case noany: False
  then have na: "MAny |\<notin>| union_norm X |\<union>| union_norm Y"
    by (auto dest: union_norm_member)
  show ?thesis
  proof (cases "MUnknown |\<in>| X |\<union>| Y")
    case True
    with noany have "MUnknown |\<in>| union_norm X |\<union>| union_norm Y"
      by (auto simp: union_norm_def)
    with True noany na show ?thesis by (simp add: union_norm_top)
  next
    case False
    then have nu: "MUnknown |\<notin>| union_norm X |\<union>| union_norm Y"
      by (auto dest: union_norm_member)
    from noany False have n: "MAny |\<notin>| X" "MUnknown |\<notin>| X" "MAny |\<notin>| Y" "MUnknown |\<notin>| Y"
      by auto
    have "union_norm (union_norm X |\<union>| union_norm Y)
        = ffilter (\<lambda>m. \<not> subsumed (X |\<union>| Y) m) (union_norm X |\<union>| union_norm Y)"
      using na nu by (simp add: union_norm_plain subsumed_norm_union [OF n])
    also have "\<dots> = ffilter (\<lambda>m. \<not> subsumed (X |\<union>| Y) m) (X |\<union>| Y)"
    proof (rule fset_eqI)
      fix m
      have "subsumed X m \<Longrightarrow> subsumed (X |\<union>| Y) m" "subsumed Y m \<Longrightarrow> subsumed (X |\<union>| Y) m"
        using subsumed_mono [of X m Y] subsumed_mono [of Y m X] by (simp_all add: funion_commute)
      then show "m |\<in>| ffilter (\<lambda>m. \<not> subsumed (X |\<union>| Y) m) (union_norm X |\<union>| union_norm Y)
          \<longleftrightarrow> m |\<in>| ffilter (\<lambda>m. \<not> subsumed (X |\<union>| Y) m) (X |\<union>| Y)"
        using n by (auto simp: union_norm_plain)
    qed
    also have "\<dots> = union_norm (X |\<union>| Y)"
      using noany False by (simp add: union_norm_plain)
    finally show ?thesis .
  qed
qed

lemma MyExclude_union:
  "MyExclude s (A |\<union>| B) U = union_norm (MyExclude s A U |\<union>| MyExclude s B U)"
  by (simp add: MyExclude_def CondDist_def fimage_funion union_norm_union)

subsection \<open>The intersection with a literal\<close>

lemma refines_lit [simp]: "refines b (MLit l) = False"
  by (cases "(b, MLit l)" rule: refines.cases) auto

lemma meet_one:
  assumes "r |\<in>| meet (MLit (LNum 1)) b"
  shows "r = MLit (LNum 1) \<or> (\<exists>ms. r = MInter ms \<and> MLit (LNum 1) |\<in>| ms)"
  using assms by (auto simp: meet_def split: if_splits)

lemma not_zero_to_one:
  assumes "r = MLit (LNum 1) \<or> (\<exists>ms. r = MInter ms \<and> MLit (LNum 1) |\<in>| ms)"
  shows "\<not> m_assignable s (MLit (LNum 0)) r" and "\<not> is_structural r"
proof -
  have lit: "\<not> m_assignable s (MLit (LNum 0)) (MLit (LNum 1))" by simp
  have inter: "\<not> m_assignable s (MLit (LNum 0)) (MInter ms)" if "MLit (LNum 1) |\<in>| ms" for ms
  proof
    assume "m_assignable s (MLit (LNum 0)) (MInter ms)"
    then have "\<forall>t |\<in>| ms. m_assignable s (MLit (LNum 0)) t" by simp
    with that have "m_assignable s (MLit (LNum 0)) (MLit (LNum 1))" by blast
    then show False by simp
  qed
  from assms lit inter show "\<not> m_assignable s (MLit (LNum 0)) r" by blast
  from assms show "\<not> is_structural r" by auto
qed

lemma intersect_one_members:
  assumes "MAny |\<notin>| T" and "r |\<in>| intersect (TNum 1) T"
  shows "r = MLit (LNum 1) \<or> (\<exists>ms. r = MInter ms \<and> MLit (LNum 1) |\<in>| ms)"
proof -
  from assms have "r |\<in>| union_norm (ffUnion ((\<lambda>a. ffUnion ((\<lambda>b. meet a b) |`| T)) |`| TNum 1))"
    by (auto simp: intersect_def split: if_splits)
  then have "r |\<in>| ffUnion ((\<lambda>b. meet (MLit (LNum 1)) b) |`| T)"
    by (auto dest!: union_norm_member)
  then obtain b where "r |\<in>| meet (MLit (LNum 1)) b"
    by (auto simp: ffUnion_fimage_member)
  then show ?thesis by (rule meet_one)
qed

lemma IsAny_eq: "IsAny s T = (if MAny |\<in>| T then TTrue else TFalse)"
proof (cases "MAny |\<in>| T")
  case True
  then have "intersect (TNum 1) T = TAny"
    by (auto simp: intersect_def)
  with True show ?thesis
    by (simp add: IsAny_def Cond1_def assignable_def)
next
  case False
  have "\<not> assignable s (TNum 0) (intersect (TNum 1) T)"
    using intersect_one_members [OF False] not_zero_to_one
    by (auto simp: assignable_def has_structural_def)
  with False show ?thesis
    by (simp add: IsAny_def Cond1_def)
qed

lemma NotAny_eq: "NotAny s T = (if MAny |\<in>| T then TFalse else TTrue)"
  by (simp add: NotAny_def IsAny_eq Cond1_def assignable_def has_structural_def)

subsection \<open>Selecting and removing attributes\<close>

lemma assignable_key_union:
  "assignable s (key_union M) (key_union N) \<longleftrightarrow> M |\<subseteq>| N"
  by (auto simp: assignable_def key_union_def has_structural_def)

lemma union_norm_key_union: "union_norm (key_union N) = key_union N"
proof -
  have "\<not> subsumed (key_union N) m" for m
    by (cases "(key_union N, m)" rule: subsumed.cases) (auto simp: key_union_def)
  then show ?thesis
    by (auto simp: union_norm_def key_union_def)
qed

lemma Cond1_key:
  "Cond1 s (TStr k) (key_union N) TNever (TStr k) = (if k |\<in>| N then TNever else TStr k)"
proof -
  have "assignable s (key_union {|k|}) (key_union N) \<longleftrightarrow> k |\<in>| N"
    by (simp add: assignable_key_union)
  then show ?thesis
    by (simp add: Cond1_def key_union_def)
qed

lemma MyExclude_keys: "MyExclude s (key_union M) (key_union N) = key_union (M |-| N)"
proof -
  have "ffUnion ((\<lambda>m. Cond1 s {|m|} (key_union N) TNever {|m|}) |`| key_union M)
      = key_union (M |-| N)"
    by (rule fset_eqI)
      (auto simp: ffUnion_fimage_member key_union_def [of M] key_union_def [of "M |-| N"]
        Cond1_key split: if_splits)
  then show ?thesis
    by (simp add: MyExclude_def CondDist_def union_norm_key_union)
qed

lemma MyPick_keys:
  assumes "wf_rec T" and "N |\<subseteq>| fmdom T"
  shows "MyPick s T (key_union N) = Inr (fmrestrict_fset N T)"
proof -
  have "Mapped Keep Keep (InParam T (key_union N)) (\<lambda>P. Index T P) = fmrestrict_fset N T"
  proof (rule fmap_ext)
    fix k
    show "fmlookup (Mapped Keep Keep (InParam T (key_union N)) (\<lambda>P. Index T P)) k
        = fmlookup (fmrestrict_fset N T) k"
    proof (cases "k |\<in>| N")
      case False
      then show ?thesis by (simp add: Mapped_lookup key_names_key_union)
    next
      case True
      with assms(2) obtain a where a: "fmlookup T k = Some a"
        by (auto simp: fmlookup_dom_iff)
      with assms(1) have "wf_attr a" by (auto dest: wf_rec_lookup)
      with a True show ?thesis
        by (simp add: Mapped_lookup key_names_key_union homomorphic_attr
            keys_named_key_union attr_eta)
    qed
  qed
  with assms(2) show ?thesis
    by (simp add: MyPick_def assignable_keys)
qed

lemma MyOmit_keys:
  assumes "wf_rec T" and "N |\<subseteq>| fmdom T"
  shows "MyOmit s T (key_union N)
       = Inr (fmmap (\<lambda>a. Attr False False (read_attr a)) (fmdrop_fset N T))"
proof -
  let ?K = "key_union (fmdom T |-| N)"
  have "Mapped Keep Keep (InType ?K) (\<lambda>P. Index T P)
      = fmmap (\<lambda>a. Attr False False (read_attr a)) (fmdrop_fset N T)"
  proof (rule fmap_ext)
    fix k
    show "fmlookup (Mapped Keep Keep (InType ?K) (\<lambda>P. Index T P)) k
        = fmlookup (fmmap (\<lambda>a. Attr False False (read_attr a)) (fmdrop_fset N T)) k"
    proof (cases "k |\<in>| fmdom T |-| N")
      case False
      then show ?thesis
        by (auto simp: Mapped_lookup key_names_key_union fmdom_notD)
    next
      case True
      then obtain a where a: "fmlookup T k = Some a"
        by (auto simp: fmlookup_dom_iff)
      with assms(1) have "wf_attr a" by (auto dest: wf_rec_lookup)
      with a True show ?thesis
        by (simp add: Mapped_lookup key_names_key_union plain_attr keys_named_key_union)
    qed
  qed
  with assms(2) show ?thesis
    by (simp add: MyOmit_def assignable_key_union MyExclude_keys Keyof_def [of T])
qed

lemma Pick_of_Exclude:
  assumes "wf_rec T"
  shows "MyPick s T (MyExclude s (Keyof T) (key_union N)) = Inr (fmdrop_fset N T)"
proof -
  have sub: "fmdom T |-| N |\<subseteq>| fmdom T" by auto
  have "fmrestrict_fset (fmdom T |-| N) T = fmdrop_fset N T"
    by (rule fmap_ext) (auto simp: fmdom_notD)
  then show ?thesis
    using MyPick_keys [OF assms sub, of s]
    by (simp add: Keyof_def [of T] MyExclude_keys)
qed

subsection \<open>The guard of the deep transform\<close>







lemma DeepReadonly_as_mapped_type:
  assumes "wf_rec T"
  shows "DeepReadonly s (TRec T) = TRec (Mapped Add Keep (InKeyof T)
           (\<lambda>P. Cond1 s (Index T P) TObject (DeepReadonly s (Index T P)) (Index T P)))"
proof -
  let ?g = "\<lambda>a. Attr True (optional a)
          (let r = Cond1 s (read_attr a) TObject (deep_member s |`| read_attr a) (read_attr a)
           in if optional a then strip_undefined r else r)"
  have "fmmap ?g T = Mapped Add Keep (InKeyof T)
           (\<lambda>P. Cond1 s (Index T P) TObject (DeepReadonly s (Index T P)) (Index T P))"
  proof (rule fmap_ext)
    fix k
    show "fmlookup (fmmap ?g T) k = fmlookup (Mapped Add Keep (InKeyof T)
           (\<lambda>P. Cond1 s (Index T P) TObject (DeepReadonly s (Index T P)) (Index T P))) k"
    proof (cases "fmlookup T k")
      case None
      then show ?thesis
        by (simp add: Mapped_lookup key_names_Keyof fmdom_notI)
    next
      case (Some a)
      with assms have "wf_attr a" by (auto dest: wf_rec_lookup)
      from Some have dom: "k |\<in>| fmdom T" by (simp add: fmlookup_dom_iff)
      show ?thesis
        using Some dom read_attr_wf(1) [OF \<open>wf_attr a\<close>]
        by (simp add: Mapped_lookup key_names_Keyof mapped_attr_def keys_named_Keyof
            Index_single DeepReadonly_def Let_def)
    qed
  qed
  then show ?thesis by (simp add: DeepReadonly_def)
qed

lemma DeepReadonly_function: "DeepReadonly s {|MFun ps r|} = TRec fmempty"
  by (simp add: DeepReadonly_def)

lemma DeepReadonly_other_members:
  "DeepReadonly s TUnknown = TRec fmempty \<and> DeepReadonly s TAny = {|MDict True TAny|}
   \<and> DeepReadonly s TObject = TObject \<and> DeepReadonly s TNever = TNever"
  by (simp add: DeepReadonly_def)

lemma DeepReadonly_intersection:
  "DeepReadonly plain_host
     {|MInter {|MRec (fmap_of_list [(''name'', Attr True False TString)]),
                MRec (fmap_of_list [(''id'', Attr False False TNumber)])|}|}
   = TRec (fmap_of_list [(''id'', Attr True False TNumber), (''name'', Attr True False TString)])"
  by code_simp







subsection \<open>What the aliases compute on a key subset\<close>

lemma SomeReadonly_keys:
  assumes "wf_rec T" and "N |\<subseteq>| fmdom T"
  shows "SomeReadonly s T (key_union N) =
     Inr (intersect
       (TRec (fmmap (\<lambda>a. Attr True (optional a) (valueType a)) (fmrestrict_fset N T)))
       (TRec (fmmap (\<lambda>a. Attr False False (read_attr a)) (fmdrop_fset N T))))"
proof -
  have first: "Mapped Add Keep (InParam T (key_union N)) (\<lambda>P. Index T P)
      = fmmap (\<lambda>a. Attr True (optional a) (valueType a)) (fmrestrict_fset N T)"
  proof (rule fmap_ext)
    fix k
    show "fmlookup (Mapped Add Keep (InParam T (key_union N)) (\<lambda>P. Index T P)) k
        = fmlookup (fmmap (\<lambda>a. Attr True (optional a) (valueType a)) (fmrestrict_fset N T)) k"
    proof (cases "k |\<in>| N")
      case False
      then show ?thesis by (simp add: Mapped_lookup key_names_key_union)
    next
      case True
      with assms(2) obtain a where a: "fmlookup T k = Some a"
        by (auto simp: fmlookup_dom_iff)
      with assms(1) have "wf_attr a" by (auto dest: wf_rec_lookup)
      with a True show ?thesis
        by (simp add: Mapped_lookup key_names_key_union homomorphic_attr keys_named_key_union)
    qed
  qed
  have "Exclude s (Keyof T) (key_union N) = MyExclude s (Keyof T) (key_union N)"
    by (simp add: Exclude_def MyExclude_def)
  then have second: "Mapped Keep Keep (InType (Exclude s (Keyof T) (key_union N))) (\<lambda>P. Index T P)
      = fmmap (\<lambda>a. Attr False False (read_attr a)) (fmdrop_fset N T)"
    using MyOmit_keys [OF assms, of s] assms(2)
    by (simp add: MyOmit_def assignable_keys)
  from assms(2) show ?thesis
    by (simp add: SomeReadonly_def assignable_keys first second)
qed

lemma MyOmit_eq_MyPick_iff:
  assumes "wf_rec T" and "N |\<subseteq>| fmdom T"
  shows "MyOmit s T (key_union N) = MyPick s T (MyExclude s (Keyof T) (key_union N))
     \<longleftrightarrow> (\<forall>k a. fmlookup T k = Some a \<and> k |\<notin>| N \<longrightarrow> \<not> readonly a \<and> \<not> optional a)"
proof -
  let ?f = "\<lambda>a. Attr False False (read_attr a)"
  have "fmmap ?f (fmdrop_fset N T) = fmdrop_fset N T
      \<longleftrightarrow> (\<forall>k a. fmlookup T k = Some a \<and> k |\<notin>| N \<longrightarrow> \<not> readonly a \<and> \<not> optional a)"
  proof
    assume eq: "fmmap ?f (fmdrop_fset N T) = fmdrop_fset N T"
    show "\<forall>k a. fmlookup T k = Some a \<and> k |\<notin>| N \<longrightarrow> \<not> readonly a \<and> \<not> optional a"
    proof (intro allI impI)
      fix k a
      assume ka: "fmlookup T k = Some a \<and> k |\<notin>| N"
      from eq have "fmlookup (fmmap ?f (fmdrop_fset N T)) k = fmlookup (fmdrop_fset N T) k"
        by simp
      with ka have "?f a = a" by simp
      then show "\<not> readonly a \<and> \<not> optional a"
        by (metis attr.sel(1) attr.sel(2))
    qed
  next
    assume plain: "\<forall>k a. fmlookup T k = Some a \<and> k |\<notin>| N \<longrightarrow> \<not> readonly a \<and> \<not> optional a"
    show "fmmap ?f (fmdrop_fset N T) = fmdrop_fset N T"
    proof (rule fmap_ext)
      fix k
      show "fmlookup (fmmap ?f (fmdrop_fset N T)) k = fmlookup (fmdrop_fset N T) k"
      proof (cases "fmlookup T k")
        case None
        then show ?thesis by simp
      next
        case (Some a)
        show ?thesis
        proof (cases "k |\<in>| N")
          case True
          then show ?thesis by simp
        next
          case False
          with plain Some have "\<not> readonly a" "\<not> optional a" by auto
          then have "?f a = a"
            by (cases a) (simp add: read_attr_def)
          with Some False show ?thesis by simp
        qed
      qed
    qed
  qed
  then show ?thesis
    by (simp add: MyOmit_keys [OF assms] Pick_of_Exclude [OF assms(1)])
qed

lemma tuple_number_strings: "tuple_number (map TStr xs) = key_union (fset_of_list xs)"
proof -
  have "ffUnion (fset_of_list (map TStr xs)) = key_union (fset_of_list xs)"
    by (induction xs) (auto simp: key_union_def)
  then show ?thesis
    by (simp add: tuple_number_def union_norm_key_union)
qed

lemma TupleToObject_strings:
  "fmlookup (TupleToObject (map TStr xs)) k
     = (if k \<in> set xs then Some (Attr False False (TStr k)) else None)"
  by (simp add: TupleToObject_def tuple_number_strings Mapped_lookup key_names_key_union
      mapped_attr_def keys_named_key_union fset_of_list_elem)

section \<open>Claims\<close>

text \<open>
  C1. \<^verbatim>\<open>Equal\<close> is a structural equality that sees the modifiers. Two records in
  normal form that differ in one attribute only are equal exactly when that attribute has
  the same readonly flag, the same optional flag and the same value type on both sides.
  In particular \<^verbatim>\<open>Equal<{a: number}, {a: number}>\<close> is \<^verbatim>\<open>true\<close>,
  \<^verbatim>\<open>Equal<{a: number}, {readonly a: number}>\<close> is \<^verbatim>\<open>false\<close> and
  \<^verbatim>\<open>Equal<{a?: number}, {a: number}>\<close> is \<^verbatim>\<open>false\<close>. (The host's identity relation,
  which \<^verbatim>\<open>Equal\<close> tests, relates a type in normal form to itself only: lemma
  \<open>Equal_structural\<close> above. Types that are not in normal form are compared as the host
  resolves them: lemma \<open>Equal_resolved_types\<close>.)
\<close>

theorem Equal_modifier_sensitive:
  assumes "normal (TRec (fmupd k (Attr ro op V) T))"
    and "normal (TRec (fmupd k (Attr ro' op' V') T))"
  shows "Equal (TRec (fmupd k (Attr ro op V) T)) (TRec (fmupd k (Attr ro' op' V') T))
     = (if ro = ro' \<and> op = op' \<and> V = V' then TTrue else TFalse)
   \<and> Equal (TRec (fmap_of_list [(''a'', Attr False False TNumber)]))
            (TRec (fmap_of_list [(''a'', Attr False False TNumber)])) = TTrue
   \<and> Equal (TRec (fmap_of_list [(''a'', Attr False False TNumber)]))
            (TRec (fmap_of_list [(''a'', Attr True False TNumber)])) = TFalse
   \<and> Equal (TRec (fmap_of_list [(''a'', Attr False True TNumber)]))
            (TRec (fmap_of_list [(''a'', Attr False False TNumber)])) = TFalse"
proof -
  have "Equal (TRec (fmupd k (Attr ro op V) T)) (TRec (fmupd k (Attr ro' op' V') T))
     = (if ro = ro' \<and> op = op' \<and> V = V' then TTrue else TFalse)"
    using assms by (simp add: Equal_structural fmupd_eq_iff)
  moreover have "Equal (TRec (fmap_of_list [(''a'', Attr False False TNumber)]))
            (TRec (fmap_of_list [(''a'', Attr False False TNumber)])) = TTrue"
    by code_simp
  moreover have "Equal (TRec (fmap_of_list [(''a'', Attr False False TNumber)]))
            (TRec (fmap_of_list [(''a'', Attr True False TNumber)])) = TFalse"
    by code_simp
  moreover have "Equal (TRec (fmap_of_list [(''a'', Attr False True TNumber)]))
            (TRec (fmap_of_list [(''a'', Attr False False TNumber)])) = TFalse"
    by code_simp
  ultimately show ?thesis by simp
qed

theorem Equal_modifier_sensitive_witness:
  "normal (TRec (fmupd ''a'' (Attr False False TNumber) fmempty))
   \<and> normal (TRec (fmupd ''a'' (Attr True False TNumber) fmempty))
   \<and> Equal (TRec (fmupd ''a'' (Attr False False TNumber) fmempty))
            (TRec (fmupd ''a'' (Attr True False TNumber) fmempty)) = TFalse"
proof -
  have n1: "normal (TRec (fmupd ''a'' (Attr False False TNumber) fmempty))" by code_simp
  have n2: "normal (TRec (fmupd ''a'' (Attr True False TNumber) fmempty))" by code_simp
  from Equal_modifier_sensitive [OF n1 n2, THEN conjunct1] n1 n2 show ?thesis by simp
qed

text \<open>
  C2. The claim is that \<^verbatim>\<open>MyOmit<T, K>\<close> equals \<^verbatim>\<open>MyPick<T, MyExclude<keyof T, K>>\<close>
  under \<^verbatim>\<open>Equal\<close>, modifiers included. The code does not do that: for
  \<^verbatim>\<open>T = { readonly id: number; name: string }\<close> and \<^verbatim>\<open>K = "name"\<close>, \<^verbatim>\<open>MyOmit\<close> returns
  \<^verbatim>\<open>{ id: number }\<close>, without the readonly modifier, the selection of the excluded keys
  returns \<^verbatim>\<open>{ readonly id: number }\<close>, and \<^verbatim>\<open>Equal\<close> tells the two apart. (The lemma
  \<open>MyOmit_eq_MyPick_iff\<close> above says when the two agree: exactly when no attribute
  that is kept is readonly or optional.)
\<close>

theorem MyOmit_loses_readonly:
  "MyOmit s user_ro (TStr ''name'') = Inr (fmap_of_list [(''id'', Attr False False TNumber)])
   \<and> MyPick s user_ro (MyExclude s (Keyof user_ro) (TStr ''name''))
       = Inr (fmap_of_list [(''id'', Attr True False TNumber)])
   \<and> Equal (TRec (fmap_of_list [(''id'', Attr False False TNumber)]))
            (TRec (fmap_of_list [(''id'', Attr True False TNumber)])) = TFalse"
  by code_simp

text \<open>
  C3. The claim is that \<^verbatim>\<open>MyPick<T, keyof T>\<close> and \<^verbatim>\<open>MyOmit<T, never>\<close> both return
  \<open>T\<close>, modifiers included. The first half holds (lemma \<open>MyPick_all_keys\<close> above, for
  every well-formed record). The second fails on the code: for
  \<^verbatim>\<open>T = { readonly id: number; name?: string }\<close>, \<^verbatim>\<open>MyOmit<T, never>\<close> is
  \<^verbatim>\<open>{ id: number; name: string | undefined }\<close>, where \<open>id\<close> is no longer readonly and
  \<open>name\<close> no longer optional, and \<^verbatim>\<open>Equal\<close> tells it from \<open>T\<close>.
\<close>

theorem MyOmit_never_not_identity:
  "MyPick s user_mod (Keyof user_mod) = Inr user_mod
   \<and> MyOmit s user_mod TNever = Inr (fmap_of_list
        [(''id'', Attr False False TNumber), (''name'', Attr False False {|MString, MUndefined|})])
   \<and> Equal (TRec (fmap_of_list
        [(''id'', Attr False False TNumber), (''name'', Attr False False {|MString, MUndefined|})]))
        (TRec user_mod) = TFalse"
  by code_simp




text \<open>
  C5. The claim is that \<^verbatim>\<open>SomeReadonly<T, K>\<close> sets the readonly flag on the attributes
  named in \<open>K\<close> and leaves every other attribute unchanged, modifiers included. (For
  the full variants the frame property holds: lemmas \<open>MyReadonly_fmmap\<close> and
  \<open>MyMutable_fmmap\<close> above.) The code does not keep the modifiers of the other
  attributes: for \<^verbatim>\<open>T = { readonly id: number; name: string }\<close> and \<^verbatim>\<open>K = "name"\<close> the
  result is \<^verbatim>\<open>{ readonly name: string } & { id: number }\<close>, in which \<open>id\<close>, an attribute
  outside \<open>K\<close>, is no longer readonly.
\<close>

theorem SomeReadonly_loses_modifiers:
  "SomeReadonly s user_ro (TStr ''name'')
     = Inr {|MInter {|MRec (fmap_of_list [(''name'', Attr True False TString)]),
                      MRec (fmap_of_list [(''id'', Attr False False TNumber)])|}|}"
  by code_simp

text \<open>
  C6. \<^verbatim>\<open>MyExclude\<close> distributes over the members of a sum, and
  \<^verbatim>\<open>MyExclude<"a" | "b" | "c", "a">\<close> is \<^verbatim>\<open>"b" | "c"\<close>; \<^verbatim>\<open>MyExclude<X, never>\<close> is \<open>X\<close> for
  every type \<open>X\<close> (in normal form); \<^verbatim>\<open>MyExclude<never, U>\<close> is \<^verbatim>\<open>never\<close> for every \<open>U\<close>.
\<close>

theorem MyExclude_laws:
  assumes "canonical X"
  shows "MyExclude s {|MLit (LStr ''a''), MLit (LStr ''b''), MLit (LStr ''c'')|} (TStr ''a'')
           = {|MLit (LStr ''b''), MLit (LStr ''c'')|}
       \<and> MyExclude s X TNever = X
       \<and> MyExclude s TNever U = TNever
       \<and> MyExclude s (A |\<union>| B) U = union_norm (MyExclude s A U |\<union>| MyExclude s B U)"
proof -
  have "MyExclude s {|MLit (LStr ''a''), MLit (LStr ''b''), MLit (LStr ''c'')|} (TStr ''a'')
           = {|MLit (LStr ''b''), MLit (LStr ''c'')|}"
    by code_simp
  moreover have "MyExclude s X TNever = X"
    using assms by (simp add: MyExclude_never canonical_def)
  moreover have "MyExclude s TNever U = TNever"
    by (simp add: MyExclude_def CondDist_def union_norm_empty)
  ultimately show ?thesis
    using MyExclude_union by blast
qed

theorem MyExclude_laws_witness:
  "canonical TBoolean
   \<and> MyExclude plain_host {|MLit (LStr ''a''), MLit (LStr ''b''), MLit (LStr ''c'')|} (TStr ''a'')
           = {|MLit (LStr ''b''), MLit (LStr ''c'')|}
   \<and> MyExclude plain_host TBoolean TNever = TBoolean
   \<and> MyExclude plain_host TNever TString = TNever
   \<and> MyExclude plain_host (TStr ''a'' |\<union>| TStr ''b'') TString
        = union_norm (MyExclude plain_host (TStr ''a'') TString
                      |\<union>| MyExclude plain_host (TStr ''b'') TString)"
proof -
  have c: "canonical TBoolean" by code_simp
  from MyExclude_laws [OF c, where s = plain_host and U = TString
      and A = "TStr ''a''" and B = "TStr ''b''"] c
  show ?thesis by simp
qed

text \<open>
  C7. \<^verbatim>\<open>IsAny<any>\<close> is \<^verbatim>\<open>true\<close>, \<^verbatim>\<open>IsAny<number>\<close> is \<^verbatim>\<open>false\<close>, \<^verbatim>\<open>NotAny<number>\<close> is
  \<^verbatim>\<open>true\<close>. For every type \<open>T\<close>, \<^verbatim>\<open>IsAny<T>\<close> is \<^verbatim>\<open>true\<close> when \<^verbatim>\<open>any\<close> is a member of
  \<open>T\<close> and \<^verbatim>\<open>false\<close> otherwise, so among types in normal form it is \<^verbatim>\<open>true\<close> exactly for
  \<^verbatim>\<open>any\<close>; and \<^verbatim>\<open>NotAny<T>\<close> is \<^verbatim>\<open>false\<close> exactly when \<^verbatim>\<open>IsAny<T>\<close> is \<^verbatim>\<open>true\<close>, and
  \<^verbatim>\<open>true\<close> exactly when \<^verbatim>\<open>IsAny<T>\<close> is \<^verbatim>\<open>false\<close>.
\<close>

theorem IsAny_NotAny:
  "IsAny s TAny = TTrue \<and> IsAny s TNumber = TFalse \<and> NotAny s TNumber = TTrue
   \<and> IsAny s T = (if MAny |\<in>| T then TTrue else TFalse)
   \<and> (canonical T \<and> IsAny s T = TTrue) = (T = TAny)
   \<and> (NotAny s T = TFalse) = (IsAny s T = TTrue)
   \<and> (NotAny s T = TTrue) = (IsAny s T = TFalse)"
proof -
  have "(canonical T \<and> MAny |\<in>| T) = (T = TAny)"
    by (auto dest: canonical_any simp: canonical_def union_norm_def)
  then show ?thesis
    by (auto simp: IsAny_eq NotAny_eq)
qed

text \<open>
  C8, as amended. \<^verbatim>\<open>Expect<T>\<close> is accepted, and returns \<open>T\<close>, exactly when \<open>T\<close> is
  assignable to the literal type \<^verbatim>\<open>true\<close>. Among the types in normal form with no
  intersection member these are \<^verbatim>\<open>true\<close>, \<^verbatim>\<open>any\<close> and \<^verbatim>\<open>never\<close>, and no other:
  \<^verbatim>\<open>false\<close>, \<^verbatim>\<open>boolean\<close>, \<^verbatim>\<open>string\<close>, \<^verbatim>\<open>number\<close>, \<^verbatim>\<open>undefined\<close>, \<^verbatim>\<open>unknown\<close> and
  every record type are rejected.
\<close>

theorem Expect_accepts:
  assumes "canonical T" and "\<forall>m |\<in>| T. \<not> is_inter m"
  shows "Expect s T = (if T = TTrue \<or> T = TAny \<or> T = TNever then Inr T else Inl ConstraintViolation)
       \<and> Expect s TTrue = Inr TTrue \<and> Expect s TAny = Inr TAny \<and> Expect s TNever = Inr TNever
       \<and> Expect s TFalse = Inl ConstraintViolation \<and> Expect s TBoolean = Inl ConstraintViolation
       \<and> Expect s TString = Inl ConstraintViolation \<and> Expect s TNumber = Inl ConstraintViolation
       \<and> Expect s TUndefined = Inl ConstraintViolation \<and> Expect s TUnknown = Inl ConstraintViolation
       \<and> Expect s (TRec R) = Inl ConstraintViolation"
proof -
  have member: "m_assignable s m (MLit (LBool True)) \<longleftrightarrow> m = MLit (LBool True) \<or> m = MAny"
    if "\<not> is_inter m" for m
    using that by (cases m) auto
  have "assignable s T TTrue \<longleftrightarrow> T |\<subseteq>| {|MLit (LBool True), MAny|}"
    using assms(2) member by (auto simp: assignable_def has_structural_def)
  also have "\<dots> \<longleftrightarrow> T = TTrue \<or> T = TAny \<or> T = TNever"
  proof
    assume sub: "T |\<subseteq>| {|MLit (LBool True), MAny|}"
    show "T = TTrue \<or> T = TAny \<or> T = TNever"
    proof (cases "MAny |\<in>| T")
      case True
      with assms(1) show ?thesis by (simp add: canonical_any)
    next
      case False
      with sub have "T |\<subseteq>| TTrue" by auto
      then show ?thesis by auto
    qed
  qed auto
  finally have general: "Expect s T =
      (if T = TTrue \<or> T = TAny \<or> T = TNever then Inr T else Inl ConstraintViolation)"
    by (simp add: Expect_def)
  have "Expect s TTrue = Inr TTrue \<and> Expect s TAny = Inr TAny \<and> Expect s TNever = Inr TNever
       \<and> Expect s TFalse = Inl ConstraintViolation \<and> Expect s TBoolean = Inl ConstraintViolation
       \<and> Expect s TString = Inl ConstraintViolation \<and> Expect s TNumber = Inl ConstraintViolation
       \<and> Expect s TUndefined = Inl ConstraintViolation \<and> Expect s TUnknown = Inl ConstraintViolation
       \<and> Expect s (TRec R) = Inl ConstraintViolation"
    by (simp add: Expect_def assignable_def has_structural_def)
  with general show ?thesis by simp
qed

theorem Expect_accepts_witness:
  "canonical TBoolean \<and> Expect plain_host TBoolean = Inl ConstraintViolation
   \<and> Expect plain_host TTrue = Inr TTrue \<and> Expect plain_host TAny = Inr TAny"
proof -
  have c: "canonical TBoolean" by code_simp
  have n: "\<forall>m |\<in>| TBoolean. \<not> is_inter m" by simp
  from Expect_accepts [OF c n, of plain_host] c show ?thesis by simp
qed

text \<open>
  The claim as stated, that every instantiation other than \<^verbatim>\<open>true\<close> is rejected, the
  top type included, fails: \<^verbatim>\<open>Expect<any>\<close> is accepted.
\<close>

theorem Expect_any_accepted: "Expect plain_host TAny = Inr TAny"
  by (simp add: Expect_def assignable_def)

text \<open>
  C9. The claim, and the comment on \<^verbatim>\<open>TupleToObject<[1, "hello", true]>\<close> in
  5-Tuple2Object.ts, is that every element of the tuple becomes a key mapped to itself,
  a boolean literal too: \<^verbatim>\<open>{ 1: 1; hello: "hello"; true: true }\<close>. The code returns
  \<^verbatim>\<open>{ 1: 1; hello: "hello" }\<close>: \<^verbatim>\<open>true\<close> names no attribute, and the mapped type passes
  over it. (For a tuple of string literals the claim holds: lemma
  \<open>TupleToObject_strings\<close> above.)
\<close>

theorem TupleToObject_drops_boolean:
  "TupleToObject [TNum 1, TStr ''hello'', TTrue]
     = fmap_of_list [(''1'', Attr False False (TNum 1)), (''hello'', Attr False False (TStr ''hello''))]
   \<and> fmlookup (TupleToObject [TNum 1, TStr ''hello'', TTrue]) ''true'' = None"
  by code_simp

text \<open>
  C10. The full readonly toggles are idempotent and override each other: for every
  well-formed record \<open>T\<close>, \<^verbatim>\<open>MyReadonly<MyReadonly<T>>\<close> equals \<^verbatim>\<open>MyReadonly<T>\<close>,
  \<^verbatim>\<open>MyMutable<MyMutable<T>>\<close> equals \<^verbatim>\<open>MyMutable<T>\<close>, \<^verbatim>\<open>MyMutable<MyReadonly<T>>\<close> equals
  \<^verbatim>\<open>MyMutable<T>\<close> and \<^verbatim>\<open>MyReadonly<MyMutable<T>>\<close> equals \<^verbatim>\<open>MyReadonly<T>\<close>, each under
  \<^verbatim>\<open>Equal\<close>, which compares the optional modifier too.
\<close>

theorem toggle_laws:
  assumes "wf_rec T"
  shows "Equal (TRec (MyReadonly (MyReadonly T))) (TRec (MyReadonly T)) = TTrue
       \<and> Equal (TRec (MyMutable (MyMutable T))) (TRec (MyMutable T)) = TTrue
       \<and> Equal (TRec (MyMutable (MyReadonly T))) (TRec (MyMutable T)) = TTrue
       \<and> Equal (TRec (MyReadonly (MyMutable T))) (TRec (MyReadonly T)) = TTrue"
  using assms
  by (simp add: Equal_same MyReadonly_fmmap MyMutable_fmmap wf_rec_fmmap fmap.map_comp comp_def)

theorem toggle_laws_witness:
  "wf_rec user_opt
   \<and> Equal (TRec (MyReadonly (MyReadonly user_opt))) (TRec (MyReadonly user_opt)) = TTrue
   \<and> Equal (TRec (MyMutable (MyMutable user_opt))) (TRec (MyMutable user_opt)) = TTrue
   \<and> Equal (TRec (MyMutable (MyReadonly user_opt))) (TRec (MyMutable user_opt)) = TTrue
   \<and> Equal (TRec (MyReadonly (MyMutable user_opt))) (TRec (MyReadonly user_opt)) = TTrue"
proof -
  have wf: "wf_rec user_opt" by code_simp
  from toggle_laws [OF wf] wf show ?thesis by simp
qed

end
